theory Spec2Isabelle
  imports Complex_Main
begin

section \<open>JavaScript numbers\<close>

text \<open>
  The calculator computes with JavaScript numbers, which are IEEE-754 doubles. A number
  is modelled as the rational value of a finite double, one of the two infinities, or
  NaN. Every arithmetic operation rounds its exact result to the nearest double, ties
  to the even significand, and overflows to an infinity (\<open>to_double\<close> below), as the
  language definition prescribes. The sign of zero is not modelled: the program never
  divides by a zero and prints no negative zero.
\<close>

datatype number = Fin rat | PosInf | NegInf | NaN

text \<open>\<open>pow2 k\<close> is \<open>2^k\<close> for an integer \<open>k\<close> of either sign.\<close>

definition pow2 :: "int \<Rightarrow> rat" where
  "pow2 k = (if 0 \<le> k then 2 ^ nat k else 1 / 2 ^ nat (- k))"

text \<open>
  The binary exponent of a positive rational: \<open>expo x\<close> is the integer \<open>e\<close> with
  \<open>2^e \<le> x < 2^(e+1)\<close>, from the floor of the binary logarithm of a natural number
  (\<open>flog2\<close>) and its ceiling (\<open>clog2\<close>).
\<close>

fun flog2 :: "nat \<Rightarrow> nat" where
  "flog2 n = (if n < 2 then 0 else Suc (flog2 (n div 2)))"

declare flog2.simps [simp del]

definition clog2 :: "nat \<Rightarrow> nat" where
  "clog2 n = (if n \<le> 1 then 0 else Suc (flog2 (n - 1)))"

definition expo :: "rat \<Rightarrow> int" where
  "expo x = (if 1 \<le> x then int (flog2 (nat \<lfloor>x\<rfloor>)) else - int (clog2 (nat \<lceil>1 / x\<rceil>)))"

text \<open>The nearest integer, a tie going to the even one.\<close>

definition round_half_even :: "rat \<Rightarrow> int" where
  "round_half_even t =
     (let f = \<lfloor>t\<rfloor>; d = t - of_int f
      in if d < 1 / 2 then f else if 1 / 2 < d then f + 1 else if even f then f else f + 1)"

text \<open>
  The double nearest to a rational \<open>x\<close>. With \<open>e\<close> the binary exponent of \<open>|x|\<close>, not
  below -1022 (the subnormal range), the doubles around \<open>x\<close> are the multiples of
  \<open>u = 2^(e - 52)\<close>; \<open>x\<close> is rounded to the nearest multiple, and a result of magnitude
  \<open>2^1024\<close> or more is an infinity.
\<close>

definition to_double :: "rat \<Rightarrow> number" where
  "to_double x =
     (if x = 0 then Fin 0
      else
        let e = max (expo \<bar>x\<bar>) (- 1022);
            u = pow2 (e - 52);
            r = of_int (round_half_even (x / u)) * u
        in if pow2 1024 \<le> \<bar>r\<bar> then (if 0 < x then PosInf else NegInf) else Fin r)"

text \<open>The value of a decimal literal of the source text, such as \<open>0.02\<close>.\<close>

definition literal :: "rat \<Rightarrow> rat" where
  "literal x = (case to_double x of Fin a \<Rightarrow> a | _ \<Rightarrow> 0)"

fun sign_of :: "number \<Rightarrow> int" where
  "sign_of (Fin a) = (if 0 < a then 1 else if a < 0 then - 1 else 0)"
| "sign_of PosInf = 1"
| "sign_of NegInf = - 1"
| "sign_of NaN = 0"

fun js_neg :: "number \<Rightarrow> number" where
  "js_neg (Fin a) = Fin (- a)"
| "js_neg PosInf = NegInf"
| "js_neg NegInf = PosInf"
| "js_neg NaN = NaN"

text \<open>\<open>x * y\<close>: NaN is contagious, and infinity times zero is NaN.\<close>

fun js_mul :: "number \<Rightarrow> number \<Rightarrow> number" where
  "js_mul (Fin a) (Fin b) = to_double (a * b)"
| "js_mul NaN y = NaN"
| "js_mul x NaN = NaN"
| "js_mul x y =
     (let s = sign_of x * sign_of y
      in if s = 0 then NaN else if 0 < s then PosInf else NegInf)"

text \<open>\<open>x - y\<close> and \<open>x + y\<close>: the difference of two equal infinities is NaN.\<close>

fun js_sub :: "number \<Rightarrow> number \<Rightarrow> number" where
  "js_sub (Fin a) (Fin b) = to_double (a - b)"
| "js_sub NaN y = NaN"
| "js_sub x NaN = NaN"
| "js_sub (Fin a) y = js_neg y"
| "js_sub x (Fin b) = x"
| "js_sub x y = (if x = y then NaN else x)"

fun js_add :: "number \<Rightarrow> number \<Rightarrow> number" where
  "js_add (Fin a) (Fin b) = to_double (a + b)"
| "js_add NaN y = NaN"
| "js_add x NaN = NaN"
| "js_add (Fin a) y = y"
| "js_add x (Fin b) = x"
| "js_add x y = (if x = y then x else NaN)"

text \<open>
  \<open>x / y\<close>: a division by zero does not throw. It gives an infinity, or NaN for
  \<open>0 / 0\<close>; a quotient of two infinities is NaN as well.
\<close>

fun js_div :: "number \<Rightarrow> number \<Rightarrow> number" where
  "js_div (Fin a) (Fin b) =
     (if b \<noteq> 0 then to_double (a / b)
      else if a = 0 then NaN else if 0 < a then PosInf else NegInf)"
| "js_div NaN y = NaN"
| "js_div x NaN = NaN"
| "js_div (Fin a) y = Fin 0"
| "js_div x (Fin b) = (if 0 \<le> b then x else js_neg x)"
| "js_div x y = NaN"

text \<open>The comparisons \<open><\<close>, \<open><=\<close>, \<open>></\<close>: each is false when an operand is NaN.\<close>

fun js_lt :: "number \<Rightarrow> number \<Rightarrow> bool" where
  "js_lt (Fin a) (Fin b) = (a < b)"
| "js_lt NaN y = False"
| "js_lt x NaN = False"
| "js_lt NegInf y = (y \<noteq> NegInf)"
| "js_lt x PosInf = (x \<noteq> PosInf)"
| "js_lt x y = False"

definition js_le :: "number \<Rightarrow> number \<Rightarrow> bool" where
  "js_le x y = (js_lt x y \<or> (x = y \<and> x \<noteq> NaN))"

definition js_gt :: "number \<Rightarrow> number \<Rightarrow> bool" where
  "js_gt x y = js_lt y x"

text \<open>
  \<open>Math.max(x, y)\<close>, \<open>Math.round(x)\<close> (the nearest integer, a tie going up:
  \<open>floor(x + 0.5)\<close> taken exactly, which is a double whenever \<open>x\<close> is) and
  \<open>Math.abs(x)\<close>.
\<close>

definition Math_max :: "number \<Rightarrow> number \<Rightarrow> number" where
  "Math_max x y = (if x = NaN \<or> y = NaN then NaN else if js_lt x y then y else x)"

fun Math_round :: "number \<Rightarrow> number" where
  "Math_round (Fin a) = Fin (of_int \<lfloor>a + 1 / 2\<rfloor>)"
| "Math_round x = x"

fun Math_abs :: "number \<Rightarrow> number" where
  "Math_abs (Fin a) = Fin \<bar>a\<bar>"
| "Math_abs NaN = NaN"
| "Math_abs x = PosInf"

section \<open>State and constants\<close>

text \<open>
  The application state: \<open>curtainType\<close> and \<open>cleaningFrequency\<close> are the strings the
  toggle buttons carry. \<open>quantity\<close> is the whole number written in the input field;
  \<open>state.quantity = parseInt(this.value) || 0\<close> is the double nearest to it (an
  infinity from about \<open>1.8 * 10^308\<close> on), which the functions below read as
  \<open>to_double (of_int (quantity st))\<close>.
\<close>

record state =
  curtainType :: string
  cleaningFrequency :: string
  quantity :: int

record costs =
  silentiaScreen :: rat
  textileCurtain :: rat
  disposableCurtain :: rat
  textileCleaning :: rat
  disposableCleaning :: rat
  disposableReplacement :: rat
  silentiaCleaning :: rat

definition COSTS :: costs where
  "COSTS = \<lparr> silentiaScreen = 1310, textileCurtain = 800, disposableCurtain = 700,
     textileCleaning = 48, disposableCleaning = 0, disposableReplacement = 700,
     silentiaCleaning = 5 \<rparr>"

text \<open>
  The frequency table of \<open>calculator.js\<close>, and the one of the second variant of the
  file (\<open>src/unnamed/part_000\<close>), which has no \<open>daily\<close> entry.
\<close>

definition FREQUENCY_MULTIPLIER :: "string \<rightharpoonup> rat" where
  "FREQUENCY_MULTIPLIER =
     [''yearly'' \<mapsto> 1, ''quarterly'' \<mapsto> 4, ''monthly'' \<mapsto> 12, ''weekly'' \<mapsto> 52,
      ''daily'' \<mapsto> 365]"

definition FREQUENCY_MULTIPLIER_part000 :: "string \<rightharpoonup> rat" where
  "FREQUENCY_MULTIPLIER_part000 =
     [''yearly'' \<mapsto> 1, ''quarterly'' \<mapsto> 4, ''monthly'' \<mapsto> 12, ''weekly'' \<mapsto> 52]"

text \<open>
  \<open>FREQUENCY_MULTIPLIER[key]\<close> as an operand of a product: a key the table does not
  have reads \<open>undefined\<close>, which is NaN in arithmetic.
\<close>

definition cleanings :: "(string \<rightharpoonup> rat) \<Rightarrow> string \<Rightarrow> number" where
  "cleanings FM key = (case FM key of Some f \<Rightarrow> Fin f | None \<Rightarrow> NaN)"

section \<open>ROI calculation\<close>

text \<open>
  The object \<open>calculateROI\<close> returns; \<open>savings\<close> and \<open>initialDiff\<close> are absent from
  the two results with \<open>valid: false\<close>.
\<close>

record roi =
  years :: number
  valid :: bool
  savings :: "number option"
  initialDiff :: "number option"

text \<open>
  \<open>calculateROI\<close> reads the globals \<open>COSTS\<close>, \<open>FREQUENCY_MULTIPLIER\<close> and \<open>state\<close>;
  here they are its arguments. The body is the same in both variants of the file.
\<close>

definition calculateROI :: "costs \<Rightarrow> (string \<rightharpoonup> rat) \<Rightarrow> state \<Rightarrow> roi" where
  "calculateROI C FM st =
     (let qty = to_double (of_int (quantity st))
      in if js_le qty (Fin 0)
         then \<lparr> years = Fin 0, valid = False, savings = None, initialDiff = None \<rparr>
         else
           let cleaningsPerYear = cleanings FM (cleaningFrequency st);
               silentiaInitial = js_mul qty (Fin (silentiaScreen C));
               curtainInitial =
                 js_mul qty (Fin (if curtainType st = ''textile''
                                  then textileCurtain C else disposableCurtain C));
               silentiaAnnual = js_mul (js_mul qty (Fin (silentiaCleaning C))) cleaningsPerYear;
               curtainAnnual =
                 (if curtainType st = ''textile''
                  then js_mul (js_mul qty (Fin (textileCleaning C))) cleaningsPerYear
                  else js_mul (js_mul qty (Fin (disposableReplacement C))) cleaningsPerYear);
               initialDifference = js_sub silentiaInitial curtainInitial;
               annualSavings = js_sub curtainAnnual silentiaAnnual
           in if js_le annualSavings (Fin 0)
              then \<lparr> years = Fin 999, valid = False, savings = None, initialDiff = None \<rparr>
              else
                let breakEvenYears = js_div initialDifference annualSavings
                in \<lparr> years = Math_max (Fin 0) breakEvenYears, valid = True,
                     savings = Some annualSavings, initialDiff = Some initialDifference \<rparr>)"

text \<open>
  The two results with \<open>valid: false\<close>, and the exact values of the two differences
  \<open>initialDifference\<close> and \<open>annualSavings\<close> for a frequency with multiplier \<open>f\<close>; the
  theorems below are stated with them.
\<close>

definition invalid :: roi where
  "invalid = \<lparr> years = Fin 0, valid = False, savings = None, initialDiff = None \<rparr>"

definition unreachable :: roi where
  "unreachable = \<lparr> years = Fin 999, valid = False, savings = None, initialDiff = None \<rparr>"

definition curtainUnitCost :: "costs \<Rightarrow> state \<Rightarrow> rat" where
  "curtainUnitCost C st =
     (if curtainType st = ''textile'' then textileCurtain C else disposableCurtain C)"

definition curtainOperatingCost :: "costs \<Rightarrow> state \<Rightarrow> rat" where
  "curtainOperatingCost C st =
     (if curtainType st = ''textile'' then textileCleaning C else disposableReplacement C)"

definition initialDifference :: "costs \<Rightarrow> state \<Rightarrow> rat" where
  "initialDifference C st =
     of_int (quantity st) * silentiaScreen C - of_int (quantity st) * curtainUnitCost C st"

definition annualSavings :: "costs \<Rightarrow> rat \<Rightarrow> state \<Rightarrow> rat" where
  "annualSavings C f st =
     of_int (quantity st) * curtainOperatingCost C st * f
       - of_int (quantity st) * silentiaCleaning C * f"

text \<open>
  The largest quantity for which every product of \<open>calculateROI\<close> with the constants
  of the file is a whole number up to \<open>2^53\<close>, hence computed without rounding: the
  largest product is \<open>quantity * 700 * 365\<close>.
\<close>

definition MAX_EXACT_QUANTITY :: int where
  "MAX_EXACT_QUANTITY = 35253226045"

text \<open>A rational that is a whole number.\<close>

definition whole :: "rat \<Rightarrow> bool" where
  "whole x = (of_int \<lfloor>x\<rfloor> = x)"

text \<open>
  The inputs for which \<open>calculateROI\<close> computes without rounding: the quantity, the
  costs and the multiplier \<open>f\<close> are whole numbers that are not negative, and the
  quantity and every product the function forms are at most \<open>2^53\<close>.
\<close>

definition exact_products :: "costs \<Rightarrow> rat \<Rightarrow> state \<Rightarrow> bool" where
  "exact_products C f st =
     (let q = of_int (quantity st)
      in (\<forall>c \<in> {silentiaScreen C, textileCurtain C, disposableCurtain C, textileCleaning C,
                 disposableReplacement C, silentiaCleaning C, f}.
            whole c \<and> 0 \<le> c)
         \<and> (\<forall>p \<in> {q, q * silentiaScreen C, q * textileCurtain C, q * disposableCurtain C,
                    q * textileCleaning C, q * textileCleaning C * f,
                    q * disposableReplacement C, q * disposableReplacement C * f,
                    q * silentiaCleaning C, q * silentiaCleaning C * f}.
               p \<le> 2 ^ 53))"

section \<open>Numbers as strings\<close>

text \<open>The decimal digits of a natural number, most significant first.\<close>

definition digit :: "nat \<Rightarrow> char" where
  "digit n = ''0123456789'' ! n"

fun digits :: "nat \<Rightarrow> string" where
  "digits n = (if n < 10 then [digit n] else digits (n div 10) @ [digit (n mod 10)])"

declare digits.simps [simp del]

text \<open>
  The exponent notation of \<open>Number.prototype.toString\<close>, which JavaScript uses for a
  number from \<open>10^21\<close> on (such a double is a whole number). With \<open>n\<close> the number of
  decimal digits of \<open>x\<close>, the digit string is the shortest whole number \<open>s\<close> of \<open>k\<close>
  digits such that \<open>s * 10^(n - k)\<close> is a decimal that reads back as \<open>x\<close>; of two such
  \<open>s\<close> the one nearer to \<open>x\<close>. \<open>s = 10^k\<close> stands for the decimal \<open>10^n\<close>, written
  \<open>1e+n\<close>. Seventeen digits always suffice, so the search for \<open>k\<close> ends there.
\<close>

definition shortest_candidates :: "rat \<Rightarrow> nat \<Rightarrow> nat \<Rightarrow> int list" where
  "shortest_candidates x n k =
     (let p = 10 ^ (n - k); lo = \<lfloor>x / p\<rfloor>
      in filter (\<lambda>s. 10 ^ (k - 1) \<le> s \<and> s \<le> 10 ^ k \<and> to_double (of_int s * p) = Fin x)
           [lo, lo + 1])"

definition closest :: "rat \<Rightarrow> rat \<Rightarrow> int list \<Rightarrow> int" where
  "closest x p ss =
     (case ss of
        [a, b] \<Rightarrow>
          (let da = \<bar>of_int a * p - x\<bar>; db = \<bar>of_int b * p - x\<bar>
           in if da < db then a else if db < da then b else if even a then a else b)
      | [a] \<Rightarrow> a
      | _ \<Rightarrow> 0)"

function shortest_length :: "rat \<Rightarrow> nat \<Rightarrow> nat \<Rightarrow> nat" where
  "shortest_length x n k =
     (if 17 \<le> k \<or> shortest_candidates x n k \<noteq> [] then k
      else shortest_length x n (Suc k))"
  by pat_completeness auto

termination
  by (relation "measure (\<lambda>(x, n, k). 17 - k)") auto

declare shortest_length.simps [simp del]

definition exponential :: "rat \<Rightarrow> string" where
  "exponential x =
     (let n = length (digits (nat \<lfloor>x\<rfloor>));
          k = shortest_length x n 1;
          s = closest x (10 ^ (n - k)) (shortest_candidates x n k);
          ds = digits (nat s)
      in if s = 10 ^ k then ''1e+'' @ digits n
         else take 1 ds @ (if k = 1 then [] else ''.'' @ drop 1 ds) @ ''e+'' @ digits (n - 1))"

text \<open>
  \<open>Number.prototype.toString\<close> on the values the program applies it to: whole numbers
  (the results of \<open>Math.round\<close> and \<open>Math.max(1, Math.round(...))\<close>, and the numbers
  from \<open>10^21\<close> on that \<open>toFixed\<close> passes to it), NaN and the infinities. The digits
  JavaScript writes for a fraction are not modelled: a fraction is written as its
  integer part here.
\<close>

definition unsigned :: "rat \<Rightarrow> string" where
  "unsigned a = (if 10 ^ 21 \<le> a then exponential a else digits (nat \<lfloor>a\<rfloor>))"

fun toString :: "number \<Rightarrow> string" where
  "toString (Fin a) = (if a < 0 then ''-'' @ unsigned (- a) else unsigned a)"
| "toString PosInf = ''Infinity''"
| "toString NegInf = ''-Infinity''"
| "toString NaN = ''NaN''"

text \<open>
  \<open>x.toFixed(d)\<close>, after the language definition: a value that is not finite, or of
  magnitude \<open>10^21\<close> or more, is written as \<open>toString\<close> writes it; otherwise the sign,
  then the integer \<open>n\<close> nearest to \<open>|x| * 10^d\<close> (the larger one of two), written with
  at least \<open>d + 1\<close> digits and a point before the last \<open>d\<close>.
\<close>

fun toFixed :: "number \<Rightarrow> nat \<Rightarrow> string" where
  "toFixed (Fin x) d =
     (if 10 ^ 21 \<le> \<bar>x\<bar> then toString (Fin x)
      else
        let n = nat \<lfloor>\<bar>x\<bar> * 10 ^ d + 1 / 2\<rfloor>;
            m = digits n;
            z = replicate (Suc d - length m) (CHR ''0'') @ m;
            k = length z
        in (if x < 0 then ''-'' else []) @
           (if d = 0 then m else take (k - d) z @ ''.'' @ drop (k - d) z))"
| "toFixed x d = toString x"

declare toFixed.simps [simp del]

text \<open>
  \<open>parseFloat\<close> on a string: an optional sign, then \<open>Infinity\<close> or the longest prefix
  that is a decimal literal (digits, an optional fraction, an optional exponent part
  with at least one digit); NaN when there is none. The result is the double nearest
  to the decimal. Leading white space is not modelled (\<open>toFixed\<close> writes none).
\<close>

definition is_digit :: "char \<Rightarrow> bool" where
  "is_digit c = (c \<in> set ''0123456789'')"

definition digit_val :: "char \<Rightarrow> nat" where
  "digit_val c = of_char c - 48"

definition parse_nat :: "string \<Rightarrow> nat" where
  "parse_nat s = foldl (\<lambda>acc c. acc * 10 + digit_val c) 0 s"

definition exponent_part :: "string \<Rightarrow> int" where
  "exponent_part s =
     (if take 1 s = ''e'' \<or> take 1 s = ''E''
      then
        let t = drop 1 s;
            t' = (if take 1 t = ''-'' \<or> take 1 t = ''+'' then drop 1 t else t);
            ed = takeWhile is_digit t'
        in if ed = [] then 0
           else if take 1 t = ''-'' then - int (parse_nat ed) else int (parse_nat ed)
      else 0)"

definition parseFloat :: "string \<Rightarrow> number" where
  "parseFloat s =
     (let neg = (take 1 s = ''-'');
          r = (if take 1 s = ''-'' \<or> take 1 s = ''+'' then drop 1 s else s);
          ip = takeWhile is_digit r;
          r' = dropWhile is_digit r;
          fp = (if take 1 r' = ''.'' then takeWhile is_digit (drop 1 r') else []);
          r'' = (if take 1 r' = ''.'' then dropWhile is_digit (drop 1 r') else r');
          ex = exponent_part r''
      in if take 8 r = ''Infinity'' then (if neg then NegInf else PosInf)
         else if ip = [] \<and> fp = [] then NaN
         else
           let m = of_nat (parse_nat ip) + of_nat (parse_nat fp) / 10 ^ length fp;
               v = (if 0 \<le> ex then m * 10 ^ nat ex else m / 10 ^ nat (- ex))
           in to_double (if neg then - v else v))"

section \<open>Environmental impact calculation\<close>

text \<open>
  The table \<open>ENVIRONMENTAL\<close>, its nested objects flattened: \<open>textile_kWhPerCleaning\<close>
  is \<open>ENVIRONMENTAL.textile.kWhPerCleaning\<close>. The two variants of the file differ in
  \<open>silentia.wipesPerCleaning\<close>: 0.015 (kg) in \<open>calculator.js\<close>, 1 (wipe) in the other.
  The literals \<open>0.02\<close> and \<open>0.015\<close> are the doubles nearest to the decimals.
\<close>

record environmental =
  textile_kWhPerCleaning :: rat
  textile_waterPerCleaning :: rat
  disposable_plasticPerUnit :: rat
  silentia_kWhPerCleaning :: rat
  silentia_waterPerCleaning :: rat
  silentia_disinfectantPerCleaning :: rat
  silentia_wipesPerCleaning :: rat

definition ENVIRONMENTAL :: environmental where
  "ENVIRONMENTAL = \<lparr> textile_kWhPerCleaning = 30, textile_waterPerCleaning = 108,
     disposable_plasticPerUnit = 2, silentia_kWhPerCleaning = 0,
     silentia_waterPerCleaning = 0, silentia_disinfectantPerCleaning = literal (2 / 100),
     silentia_wipesPerCleaning = literal (15 / 1000) \<rparr>"

definition ENVIRONMENTAL_part000 :: environmental where
  "ENVIRONMENTAL_part000 = \<lparr> textile_kWhPerCleaning = 30, textile_waterPerCleaning = 108,
     disposable_plasticPerUnit = 2, silentia_kWhPerCleaning = 0,
     silentia_waterPerCleaning = 0, silentia_disinfectantPerCleaning = literal (2 / 100),
     silentia_wipesPerCleaning = 1 \<rparr>"

text \<open>
  The object \<open>calculateResources\<close> returns: the constructor is its \<open>type\<close> field.
  The fields written with \<open>toFixed\<close> are strings; the two consumables are numbers in
  \<open>calculator.js\<close> (\<open>parseFloat\<close> of the string) and strings in the other variant.
\<close>

datatype val = StringV string | NumberV number

datatype resources =
    Textile (curtainKWh: string) (curtainWater: string) (silentiaKWh: string)
      (silentiaWater: string) (silentiaDisinfectant: val) (silentiaWipes: val)
      (savedKWh: string) (savedWater: string)
  | Disposable (plasticWaste: string) (silentiaDisinfectant: val) (silentiaWipes: val)
      (savedPlastic: string)

text \<open>\<open>calculateResources\<close> of \<open>calculator.js\<close>; \<open>None\<close> is its \<open>null\<close>.\<close>

definition calculateResources ::
  "environmental \<Rightarrow> (string \<rightharpoonup> rat) \<Rightarrow> state \<Rightarrow> resources option" where
  "calculateResources E FM st =
     (let qty = to_double (of_int (quantity st))
      in if js_le qty (Fin 0) then None
         else
           let cleaningsPerYear = cleanings FM (cleaningFrequency st)
           in if curtainType st = ''textile''
              then
                let curtainKWh = js_mul (js_mul qty (Fin (textile_kWhPerCleaning E))) cleaningsPerYear;
                    curtainWater = js_mul (js_mul qty (Fin (textile_waterPerCleaning E))) cleaningsPerYear;
                    silentiaKWh = js_mul (js_mul qty (Fin (silentia_kWhPerCleaning E))) cleaningsPerYear;
                    silentiaWater = js_mul (js_mul qty (Fin (silentia_waterPerCleaning E))) cleaningsPerYear;
                    silentiaDisinfectant =
                      js_mul (js_mul qty (Fin (silentia_disinfectantPerCleaning E))) cleaningsPerYear;
                    silentiaWipes = js_mul (js_mul qty (Fin (silentia_wipesPerCleaning E))) cleaningsPerYear
                in Some (Textile (toFixed curtainKWh 0) (toFixed curtainWater 0)
                     (toFixed silentiaKWh 0) (toFixed silentiaWater 0)
                     (NumberV (parseFloat (toFixed silentiaDisinfectant 2)))
                     (NumberV (parseFloat (toFixed silentiaWipes 2)))
                     (toFixed (js_sub curtainKWh silentiaKWh) 0)
                     (toFixed (js_sub curtainWater silentiaWater) 0))
              else
                let plasticWaste = js_mul (js_mul qty (Fin (disposable_plasticPerUnit E))) cleaningsPerYear;
                    silentiaDisinfectant =
                      js_mul (js_mul qty (Fin (silentia_disinfectantPerCleaning E))) cleaningsPerYear;
                    silentiaWipes = js_mul (js_mul qty (Fin (silentia_wipesPerCleaning E))) cleaningsPerYear
                in Some (Disposable (toFixed plasticWaste 0)
                     (NumberV (parseFloat (toFixed silentiaDisinfectant 2)))
                     (NumberV (parseFloat (toFixed silentiaWipes 2)))
                     (toFixed plasticWaste 0)))"

text \<open>
  \<open>calculateResources\<close> of the second variant (\<open>src/unnamed/part_000\<close>): the same
  amounts, the consumables written with \<open>toFixed(0)\<close>.
\<close>

definition calculateResources_part000 ::
  "environmental \<Rightarrow> (string \<rightharpoonup> rat) \<Rightarrow> state \<Rightarrow> resources option" where
  "calculateResources_part000 E FM st =
     (let qty = to_double (of_int (quantity st))
      in if js_le qty (Fin 0) then None
         else
           let cleaningsPerYear = cleanings FM (cleaningFrequency st)
           in if curtainType st = ''textile''
              then
                let curtainKWh = js_mul (js_mul qty (Fin (textile_kWhPerCleaning E))) cleaningsPerYear;
                    curtainWater = js_mul (js_mul qty (Fin (textile_waterPerCleaning E))) cleaningsPerYear;
                    silentiaKWh = js_mul (js_mul qty (Fin (silentia_kWhPerCleaning E))) cleaningsPerYear;
                    silentiaWater = js_mul (js_mul qty (Fin (silentia_waterPerCleaning E))) cleaningsPerYear;
                    silentiaDisinfectant =
                      js_mul (js_mul qty (Fin (silentia_disinfectantPerCleaning E))) cleaningsPerYear;
                    silentiaWipes = js_mul (js_mul qty (Fin (silentia_wipesPerCleaning E))) cleaningsPerYear
                in Some (Textile (toFixed curtainKWh 0) (toFixed curtainWater 0)
                     (toFixed silentiaKWh 0) (toFixed silentiaWater 0)
                     (StringV (toFixed silentiaDisinfectant 0))
                     (StringV (toFixed silentiaWipes 0))
                     (toFixed (js_sub curtainKWh silentiaKWh) 0)
                     (toFixed (js_sub curtainWater silentiaWater) 0))
              else
                let plasticWaste = js_mul (js_mul qty (Fin (disposable_plasticPerUnit E))) cleaningsPerYear;
                    silentiaDisinfectant =
                      js_mul (js_mul qty (Fin (silentia_disinfectantPerCleaning E))) cleaningsPerYear;
                    silentiaWipes = js_mul (js_mul qty (Fin (silentia_wipesPerCleaning E))) cleaningsPerYear
                in Some (Disposable (toFixed plasticWaste 0)
                     (StringV (toFixed silentiaDisinfectant 0))
                     (StringV (toFixed silentiaWipes 0))
                     (toFixed plasticWaste 0)))"

text \<open>
  An annual amount as both variants compute it, \<open>qty * rate * cleaningsPerYear\<close>:
  two products, each rounded to a double.
\<close>

definition amount :: "int \<Rightarrow> rat \<Rightarrow> rat \<Rightarrow> number" where
  "amount q rate f = js_mul (js_mul (to_double (of_int q)) (Fin rate)) (Fin f)"

section \<open>Display of the results\<close>

definition SILENTIA_LIFESPAN_YEARS :: rat where
  "SILENTIA_LIFESPAN_YEARS = 10"

text \<open>
  The ROI block of \<open>displayResults\<close> in \<open>calculator.js\<close> (lines 295 to 350), as a
  function of the object \<open>roi\<close>: the text it gives the element \<open>roi-years\<close> and the
  text it gives the label.
\<close>

definition displayROI :: "roi \<Rightarrow> string \<times> string" where
  "displayROI r =
     (if valid r \<and> years r \<noteq> Fin 999
      then
        let years = years r
        in if js_gt years (Fin SILENTIA_LIFESPAN_YEARS) then (''10+'', ''YEARS'')
           else if js_lt years (js_div (Fin 1) (Fin 52))
           then
             let days = Math_round (js_mul years (Fin 365))
             in (toString (Math_max (Fin 1) days), if days = Fin 1 then ''DAY'' else ''DAYS'')
           else if js_lt years (js_div (Fin 1) (Fin 12))
           then
             let weeks = Math_round (js_mul years (Fin 52))
             in if js_le (Fin 4) weeks
                then
                  let months = Math_round (js_mul years (Fin 12))
                  in (toString months, if months = Fin 1 then ''MONTH'' else ''MONTHS'')
                else if js_lt weeks (Fin 1)
                then
                  let days = Math_round (js_mul years (Fin 365))
                  in (toString (Math_max (Fin 1) days),
                      if days = Fin 1 then ''DAY'' else ''DAYS'')
                else (toString weeks, if weeks = Fin 1 then ''WEEK'' else ''WEEKS'')
           else if js_lt years (Fin 1)
           then
             let months = Math_round (js_mul years (Fin 12))
             in if js_le (Fin 12) months then (''1'', ''YEAR'')
                else (toString months, if months = Fin 1 then ''MONTH'' else ''MONTHS'')
           else
             let roundedYears = js_div (Math_round (js_mul years (Fin 10))) (Fin 10)
             in (if js_lt (Math_abs (js_sub roundedYears (Math_round roundedYears)))
                      (Fin (literal (1 / 100)))
                 then toString (Math_round roundedYears)
                 else toFixed roundedYears 1,
                 if js_gt roundedYears (Fin 1) then ''YEARS'' else ''YEAR'')
      else if years r = Fin 999 then (''N/A'', ''YEARS'')
      else (''--'', ''YEAR''))"

text \<open>
  The same block in the second variant (\<open>src/unnamed/part_000\<close>, lines 206 to 252):
  it has no bucket of days.
\<close>

definition displayROI_part000 :: "roi \<Rightarrow> string \<times> string" where
  "displayROI_part000 r =
     (if valid r \<and> years r \<noteq> Fin 999
      then
        let years = years r
        in if js_gt years (Fin SILENTIA_LIFESPAN_YEARS) then (''10+'', ''YEARS'')
           else if js_lt years (js_div (Fin 1) (Fin 12))
           then
             let weeks = Math_round (js_mul years (Fin 52))
             in if js_le (Fin 4) weeks
                then
                  let months = Math_round (js_mul years (Fin 12))
                  in (toString months, if months = Fin 1 then ''MONTH'' else ''MONTHS'')
                else (toString weeks, if weeks = Fin 1 then ''WEEK'' else ''WEEKS'')
           else if js_lt years (Fin 1)
           then
             let months = Math_round (js_mul years (Fin 12))
             in if js_le (Fin 12) months then (''1'', ''YEAR'')
                else (toString months, if months = Fin 1 then ''MONTH'' else ''MONTHS'')
           else
             let roundedYears = js_div (Math_round (js_mul years (Fin 10))) (Fin 10)
             in (if js_lt (Math_abs (js_sub roundedYears (Math_round roundedYears)))
                      (Fin (literal (1 / 100)))
                 then toString (Math_round roundedYears)
                 else toFixed roundedYears 1,
                 if js_gt roundedYears (Fin 1) then ''YEARS'' else ''YEAR'')
      else if years r = Fin 999 then (''N/A'', ''YEARS'')
      else (''--'', ''YEAR''))"

text \<open>\<open>displayResults\<close>, as far as the ROI is concerned: \<open>const roi = calculateROI()\<close>.\<close>

definition displayResults :: "costs \<Rightarrow> (string \<rightharpoonup> rat) \<Rightarrow> state \<Rightarrow> string \<times> string" where
  "displayResults C FM st = displayROI (calculateROI C FM st)"

definition displayResults_part000 ::
  "costs \<Rightarrow> (string \<rightharpoonup> rat) \<Rightarrow> state \<Rightarrow> string \<times> string" where
  "displayResults_part000 C FM st = displayROI_part000 (calculateROI C FM st)"

text \<open>
  \<open>Math.round(years * c)\<close> as an integer, for the three units of the display:
  \<open>days\<close> is \<open>round_times years 365\<close>, \<open>weeks\<close> is \<open>round_times years 52\<close> and
  \<open>months\<close> is \<open>round_times years 12\<close> (0 stands for a result that is not finite).
\<close>

definition round_times :: "rat \<Rightarrow> rat \<Rightarrow> int" where
  "round_times y c = (case Math_round (js_mul (Fin y) (Fin c)) of Fin a \<Rightarrow> \<lfloor>a\<rfloor> | _ \<Rightarrow> 0)"

text \<open>
  The bar widths of \<open>createBarRow\<close> in \<open>displayChart\<close>: \<open>silentiaWidth\<close> and
  \<open>curtainWidth\<close>, which the function writes into its HTML.
\<close>

definition createBarRow :: "number \<Rightarrow> number \<Rightarrow> number \<times> number" where
  "createBarRow silentiaValue curtainValue =
     (let maxValue = Math_max silentiaValue curtainValue;
          silentiaWidth =
            (if js_gt maxValue (Fin 0) then js_mul (js_div silentiaValue maxValue) (Fin 100)
             else Fin 0);
          curtainWidth =
            (if js_gt maxValue (Fin 0) then js_mul (js_div curtainValue maxValue) (Fin 100)
             else Fin 0)
      in (silentiaWidth, curtainWidth))"

text \<open>
  \<open>displayChart\<close> of \<open>calculator.js\<close> (lines 202 to 281): the widths of its three bar
  rows (initial investment, annual operating cost, 10-year total cost); \<open>None\<close> when
  the quantity is not above 0 and it shows a message instead.
\<close>

definition displayChart ::
  "costs \<Rightarrow> (string \<rightharpoonup> rat) \<Rightarrow> state
     \<Rightarrow> ((number \<times> number) \<times> (number \<times> number) \<times> (number \<times> number)) option" where
  "displayChart C FM st =
     (let qty = to_double (of_int (quantity st))
      in if js_le qty (Fin 0) then None
         else
           let cleaningsPerYear = cleanings FM (cleaningFrequency st);
               silentiaInitial = js_mul qty (Fin (silentiaScreen C));
               curtainInitial =
                 js_mul qty (Fin (if curtainType st = ''textile''
                                  then textileCurtain C else disposableCurtain C));
               silentiaAnnual = js_mul (js_mul qty (Fin (silentiaCleaning C))) cleaningsPerYear;
               curtainAnnual =
                 (if curtainType st = ''textile''
                  then js_mul (js_mul qty (Fin (textileCleaning C))) cleaningsPerYear
                  else js_mul (js_mul qty (Fin (disposableReplacement C))) cleaningsPerYear);
               silentiaTotal =
                 js_add silentiaInitial (js_mul silentiaAnnual (Fin SILENTIA_LIFESPAN_YEARS));
               curtainTotal =
                 js_add curtainInitial (js_mul curtainAnnual (Fin SILENTIA_LIFESPAN_YEARS))
           in Some (createBarRow silentiaInitial curtainInitial,
                    createBarRow silentiaAnnual curtainAnnual,
                    createBarRow silentiaTotal curtainTotal))"

text \<open>
  The percentages of the resources chart in \<open>displayResults\<close> of \<open>calculator.js\<close>
  (lines 365 to 377 for textile, 412 to 420 for disposable), as functions of the
  numbers \<open>Number(resources.curtainKWh)\<close>, \<open>Number(resources.curtainWater)\<close> (or
  \<open>Number(resources.plasticWaste)\<close>), \<open>Number(resources.silentiaDisinfectant)\<close> and
  \<open>Number(resources.silentiaWipes)\<close>.
\<close>

record bars =
  curtainBarWidth :: number
  silentiaBarWidth :: number
  curtainEnergyPct :: number
  curtainWaterPct :: number
  silentiaDisinfPct :: number
  silentiaWipesPct :: number

definition textileBars :: "number \<Rightarrow> number \<Rightarrow> number \<Rightarrow> number \<Rightarrow> bars" where
  "textileBars kWh water disinfectant wipes =
     (let curtainTotal = js_add kWh water;
          silentiaTotal = js_add disinfectant wipes;
          maxTotal = Math_max curtainTotal silentiaTotal
      in \<lparr> curtainBarWidth =
             (if js_gt maxTotal (Fin 0) then js_mul (js_div curtainTotal maxTotal) (Fin 100)
              else Fin 0),
           silentiaBarWidth =
             (if js_gt maxTotal (Fin 0) then js_mul (js_div silentiaTotal maxTotal) (Fin 100)
              else Fin 0),
           curtainEnergyPct =
             (if js_gt curtainTotal (Fin 0) then js_mul (js_div kWh curtainTotal) (Fin 100)
              else Fin 0),
           curtainWaterPct =
             (if js_gt curtainTotal (Fin 0) then js_mul (js_div water curtainTotal) (Fin 100)
              else Fin 0),
           silentiaDisinfPct =
             (if js_gt silentiaTotal (Fin 0)
              then js_mul (js_div disinfectant silentiaTotal) (Fin 100) else Fin 0),
           silentiaWipesPct =
             (if js_gt silentiaTotal (Fin 0)
              then js_mul (js_div wipes silentiaTotal) (Fin 100) else Fin 0) \<rparr>)"

text \<open>
  The disposable branch has one segment in the curtain bar (its width is the constant
  100%), so it computes four percentages: \<open>curtainBarWidth\<close>, \<open>silentiaBarWidth\<close>,
  \<open>silentiaDisinfPct\<close> and \<open>silentiaWipesPct\<close>, in this order.
\<close>

definition disposableBars ::
  "number \<Rightarrow> number \<Rightarrow> number \<Rightarrow> number \<times> number \<times> number \<times> number" where
  "disposableBars plastic disinfectant wipes =
     (let curtainTotal = plastic;
          silentiaTotal = js_add disinfectant wipes;
          maxTotal = Math_max curtainTotal silentiaTotal
      in ((if js_gt maxTotal (Fin 0) then js_mul (js_div curtainTotal maxTotal) (Fin 100)
           else Fin 0),
          (if js_gt maxTotal (Fin 0) then js_mul (js_div silentiaTotal maxTotal) (Fin 100)
           else Fin 0),
          (if js_gt silentiaTotal (Fin 0)
           then js_mul (js_div disinfectant silentiaTotal) (Fin 100) else Fin 0),
          (if js_gt silentiaTotal (Fin 0)
           then js_mul (js_div wipes silentiaTotal) (Fin 100) else Fin 0)))"

section \<open>The wording of the specification\<close>

text \<open>
  The specification's rounding to a fixed number of decimal places, and its policy for
  a percentage: 0 when the denominator is 0, otherwise the magnitude divided by the
  denominator, times 100 (computed in doubles, as the code computes it). The theorems
  below compare the code with them.
\<close>

definition round_to :: "nat \<Rightarrow> rat \<Rightarrow> rat" where
  "round_to d x = of_int \<lfloor>x * 10 ^ d + 1 / 2\<rfloor> / 10 ^ d"

definition percentage :: "rat \<Rightarrow> rat \<Rightarrow> number" where
  "percentage x denominator =
     (if denominator = 0 then Fin 0
      else js_mul (js_div (Fin x) (Fin denominator)) (Fin 100))"

section \<open>Rounding to a double\<close>

lemma pow2_powi: "pow2 k = 2 powi k"
  by (simp add: pow2_def power_int_def power_one_over inverse_eq_divide)

lemma pow2_pos [simp]: "0 < pow2 k"
  by (simp add: pow2_powi)

lemma pow2_nonzero [simp]: "pow2 k \<noteq> 0"
  by (simp add: pow2_powi)

lemma pow2_abs [simp]: "\<bar>pow2 k\<bar> = pow2 k"
  by (simp add: pow2_powi)

lemma pow2_1 [simp]: "pow2 1 = 2"
  by (simp add: pow2_def)

lemma pow2_add: "pow2 (a + b) = pow2 a * pow2 b"
  by (simp add: pow2_powi power_int_add)

lemma pow2_diff: "pow2 (a - b) = pow2 a / pow2 b"
  by (simp add: pow2_powi power_int_diff)

lemma pow2_mono: "a \<le> b \<Longrightarrow> pow2 a \<le> pow2 b"
  by (simp add: pow2_powi power_int_increasing)

lemma pow2_strict_mono: "a < b \<Longrightarrow> pow2 a < pow2 b"
  by (simp add: pow2_powi power_int_strict_increasing)

lemma pow2_less_cancel: "pow2 a < pow2 b \<Longrightarrow> a < b"
  using pow2_mono[of b a] by (cases "a < b") auto

lemma pow2_nat: "0 \<le> k \<Longrightarrow> pow2 k = of_int (2 ^ nat k)"
  by (simp add: pow2_def)

lemma pow2_0 [simp]: "pow2 0 = 1"
  by (simp add: pow2_def)

lemma flog2_bounds:
  "0 < n \<Longrightarrow> 2 ^ flog2 n \<le> n \<and> n < 2 ^ Suc (flog2 n)"
proof (induction n rule: flog2.induct)
  case (1 n)
  show ?case
  proof (cases "n < 2")
    case True
    with 1(2) show ?thesis by (simp add: flog2.simps[of n])
  next
    case False
    then have "0 < n div 2" by simp
    with 1(1)[OF False] have ih: "2 ^ flog2 (n div 2) \<le> n div 2"
      "n div 2 < 2 ^ Suc (flog2 (n div 2))" by simp_all
    have f: "flog2 n = Suc (flog2 (n div 2))" using False by (simp add: flog2.simps[of n])
    from ih show ?thesis unfolding f by (simp; linarith)
  qed
qed

lemma clog2_bounds:
  assumes "2 \<le> n"
  shows "2 ^ (clog2 n - 1) < n \<and> n \<le> 2 ^ clog2 n"
proof -
  have c: "clog2 n = Suc (flog2 (n - 1))" using assms by (simp add: clog2_def)
  have "0 < n - 1" using assms by simp
  from flog2_bounds[OF this] show ?thesis unfolding c by (simp; linarith)
qed

lemma expo_bounds:
  assumes "0 < x"
  shows "pow2 (expo x) \<le> x \<and> x < pow2 (expo x + 1)"
proof (cases "1 \<le> x")
  case True
  define n where "n = nat \<lfloor>x\<rfloor>"
  have n1: "0 < n" using True by (simp add: n_def)
  have e: "expo x = int (flog2 n)" using True by (simp add: expo_def n_def)
  have nx: "of_nat n \<le> x" using True by (simp add: n_def)
  have xn: "x < of_nat n + 1" using True by (simp add: n_def) linarith
  from flog2_bounds[OF n1] have a: "2 ^ flog2 n \<le> n" and b: "n + 1 \<le> 2 ^ Suc (flog2 n)"
    by simp_all
  have "(2::rat) ^ flog2 n \<le> of_nat n" using a
    by (metis of_nat_le_iff of_nat_numeral of_nat_power)
  then have "(2::rat) ^ flog2 n \<le> x" using nx by (rule order_trans)
  then have lo: "pow2 (expo x) \<le> x" by (simp add: e pow2_def)
  have "(of_nat (n + 1) :: rat) \<le> of_nat (2 ^ Suc (flog2 n))" using b of_nat_le_iff by blast
  then have "(of_nat n :: rat) + 1 \<le> 2 ^ Suc (flog2 n)" by simp
  then have hi: "x < pow2 (expo x + 1)" using xn by (simp add: e pow2_def nat_add_distrib)
  from lo hi show ?thesis by simp
next
  case False
  define t where "t = 1 / x"
  define n where "n = nat \<lceil>t\<rceil>"
  have t1: "1 < t" using False assms by (simp add: t_def)
  then have "2 \<le> \<lceil>t\<rceil>" by linarith
  then have n2: "2 \<le> n" unfolding n_def by linarith
  define c where "c = clog2 n"
  have e: "expo x = - int c" using False by (simp add: expo_def n_def t_def c_def)
  from clog2_bounds[OF n2] have a: "2 ^ (c - 1) < n" and b: "n \<le> 2 ^ c" by (simp_all add: c_def)
  have c1: "1 \<le> c" using n2 by (simp add: c_def clog2_def)
  have tn: "t \<le> of_nat n" using t1 by (simp add: n_def)
  have nt: "of_nat n - 1 < t" using t1 by (simp add: n_def) linarith
  have "(of_nat n :: rat) \<le> of_nat (2 ^ c)" using b of_nat_le_iff by blast
  then have "(of_nat n :: rat) \<le> 2 ^ c" by simp
  with tn have "t \<le> 2 ^ c" by (rule order_trans)
  then have "1 / x \<le> 2 ^ c" by (simp add: t_def)
  then have "1 \<le> 2 ^ c * x" using assms by (simp add: divide_le_eq)
  then have "1 / 2 ^ c \<le> x" by (simp add: divide_le_eq mult.commute)
  then have lo: "pow2 (expo x) \<le> x" using c1 by (simp add: e pow2_def)
  have "2 ^ (c - 1) + 1 \<le> n" using a by simp
  then have "(of_nat (2 ^ (c - 1) + 1) :: rat) \<le> of_nat n" using of_nat_le_iff by blast
  then have "(2::rat) ^ (c - 1) \<le> of_nat n - 1" by simp
  then have "2 ^ (c - 1) < t" using nt by (rule le_less_trans)
  then have "2 ^ (c - 1) < 1 / x" by (simp add: t_def)
  then have "2 ^ (c - 1) * x < 1" using assms by (simp add: less_divide_eq)
  then have "x < 1 / 2 ^ (c - 1)" by (simp add: less_divide_eq mult.commute)
  moreover have "pow2 (expo x + 1) = 1 / 2 ^ (c - 1)"
  proof (cases "c = 1")
    case True
    then show ?thesis by (simp add: e pow2_def)
  next
    case False
    then have "2 \<le> c" using c1 by simp
    then have "nat (int c - 1) = c - 1" by simp
    then show ?thesis using \<open>2 \<le> c\<close> by (simp add: e pow2_def)
  qed
  ultimately have hi: "x < pow2 (expo x + 1)" by simp
  from lo hi show ?thesis by simp
qed

lemma expo_unique:
  assumes "0 < x" and "pow2 e \<le> x" and "x < pow2 (e + 1)"
  shows "expo x = e"
proof -
  from expo_bounds[OF assms(1)] have a: "pow2 (expo x) \<le> x" and b: "x < pow2 (expo x + 1)"
    by simp_all
  have "pow2 e < pow2 (expo x + 1)" using assms(2) b by simp
  then have 1: "e < expo x + 1" by (rule pow2_less_cancel)
  have "pow2 (expo x) < pow2 (e + 1)" using assms(3) a by simp
  then have 2: "expo x < e + 1" by (rule pow2_less_cancel)
  from 1 2 show ?thesis by simp
qed

lemma round_half_even_cases:
  "round_half_even t = \<lfloor>t\<rfloor> \<or> round_half_even t = \<lfloor>t\<rfloor> + 1"
  by (simp add: round_half_even_def Let_def)

lemma round_half_even_of_int [simp]: "round_half_even (of_int n) = n"
  by (simp add: round_half_even_def)

lemma round_half_even_ge:
  assumes "of_int a \<le> t"
  shows "a \<le> round_half_even t"
proof -
  have "a \<le> \<lfloor>t\<rfloor>" using assms by (simp add: le_floor_iff)
  then show ?thesis using round_half_even_cases[of t] by auto
qed

lemma round_half_even_le:
  assumes "t \<le> of_int b"
  shows "round_half_even t \<le> b"
proof (cases "t = of_int b")
  case True
  then show ?thesis by simp
next
  case False
  then have "t < of_int b" using assms by simp
  then have "\<lfloor>t\<rfloor> < b" by (simp add: floor_less_iff)
  then show ?thesis using round_half_even_cases[of t] by auto
qed

lemma round_half_even_error: "\<bar>of_int (round_half_even t) - t\<bar> \<le> 1 / 2"
proof -
  define d where "d = t - of_int \<lfloor>t\<rfloor>"
  have lo: "0 \<le> d" by (simp add: d_def)
  have hi: "d < 1" using floor_correct[of t] by (simp add: d_def)
  have t: "t = of_int \<lfloor>t\<rfloor> + d" by (simp add: d_def)
  show ?thesis
  proof (cases "d < 1 / 2")
    case True
    then have "round_half_even t = \<lfloor>t\<rfloor>" by (simp add: round_half_even_def d_def)
    then show ?thesis using True lo t by simp
  next
    case False
    show ?thesis
    proof (cases "round_half_even t = \<lfloor>t\<rfloor>")
      case True
      then have "d = 1 / 2" using False
        by (simp add: round_half_even_def Let_def d_def split: if_splits)
      then show ?thesis using True t by simp
    next
      case F2: False
      then have "round_half_even t = \<lfloor>t\<rfloor> + 1" using round_half_even_cases[of t] by simp
      then have "of_int (round_half_even t) - t = 1 - d" by (simp add: d_def)
      then show ?thesis using False hi by simp
    qed
  qed
qed


lemma pow2_53: "pow2 53 = 2 ^ 53"
  by (simp add: pow2_def)

lemma pow2_52: "pow2 52 = 2 ^ 52"
  by (simp add: pow2_def)

lemma to_double_anatomy:
  fixes x :: rat
  assumes x: "x \<noteq> 0"
  defines "e \<equiv> max (expo \<bar>x\<bar>) (- 1022)"
  defines "n \<equiv> round_half_even (x / pow2 (e - 52))"
  shows "to_double x =
      (if pow2 1024 \<le> \<bar>of_int n * pow2 (e - 52)\<bar>
       then (if 0 < x then PosInf else NegInf) else Fin (of_int n * pow2 (e - 52)))"
    and "\<bar>n\<bar> \<le> 2 ^ 53"
    and "0 < x \<Longrightarrow> 0 \<le> n"
    and "x < 0 \<Longrightarrow> n \<le> 0"
    and "pow2 (- 1022) \<le> \<bar>x\<bar> \<Longrightarrow> 2 ^ 52 \<le> \<bar>n\<bar>"
proof -
  define u where "u = pow2 (e - 52)"
  have u: "0 < u" by (simp add: u_def)
  have ax: "0 < \<bar>x\<bar>" using x by simp
  show "to_double x =
      (if pow2 1024 \<le> \<bar>of_int n * pow2 (e - 52)\<bar>
       then (if 0 < x then PosInf else NegInf) else Fin (of_int n * pow2 (e - 52)))"
    using x by (simp add: to_double_def Let_def e_def n_def)
  have "\<bar>x\<bar> < pow2 (expo \<bar>x\<bar> + 1)" using expo_bounds[OF ax] by simp
  also have "\<dots> \<le> pow2 (e + 1)" by (rule pow2_mono) (simp add: e_def)
  also have "\<dots> = pow2 53 * u"
  proof -
    have "e + 1 = 53 + (e - 52)" by simp
    then show ?thesis by (simp only: u_def pow2_add)
  qed
  finally have "\<bar>x\<bar> / u < pow2 53" using u by (simp add: divide_less_eq)
  then have b: "\<bar>x / u\<bar> < 2 ^ 53" using u by (simp add: pow2_53)
  then have "x / u < 2 ^ 53" and "- (x / u) < 2 ^ 53" unfolding abs_less_iff by blast+
  then have "x / u \<le> of_int (2 ^ 53)" and "of_int (- (2 ^ 53)) \<le> x / u" by simp_all
  then have "n \<le> 2 ^ 53" and "- (2 ^ 53) \<le> n"
    unfolding n_def u_def[symmetric]
    using round_half_even_le[of "x / u" "2 ^ 53"] round_half_even_ge[of "- (2 ^ 53)" "x / u"]
    by blast+
  then show "\<bar>n\<bar> \<le> 2 ^ 53" by simp
  show "0 \<le> n" if "0 < x"
  proof -
    have "of_int 0 \<le> x / u" using that u by simp
    then show ?thesis unfolding n_def u_def[symmetric] by (rule round_half_even_ge)
  qed
  show "n \<le> 0" if "x < 0"
  proof -
    have "x / u \<le> of_int 0" using that u by (simp add: divide_le_0_iff)
    then show ?thesis unfolding n_def u_def[symmetric] by (rule round_half_even_le)
  qed
  show "2 ^ 52 \<le> \<bar>n\<bar>" if "pow2 (- 1022) \<le> \<bar>x\<bar>"
  proof -
    have "pow2 (- 1022) < pow2 (expo \<bar>x\<bar> + 1)" using that expo_bounds[OF ax] by simp
    then have "- 1022 < expo \<bar>x\<bar> + 1" by (rule pow2_less_cancel)
    then have e: "e = expo \<bar>x\<bar>" by (simp add: e_def)
    have "pow2 52 * u = pow2 e"
    proof -
      have "e = 52 + (e - 52)" by simp
      then show ?thesis by (simp only: u_def pow2_add[symmetric])
    qed
    also have "\<dots> \<le> \<bar>x\<bar>" using expo_bounds[OF ax] by (simp add: e)
    finally have lo: "2 ^ 52 \<le> \<bar>x\<bar> / u" using u by (simp add: le_divide_eq pow2_52)
    show ?thesis
    proof (cases "0 < x")
      case True
      then have "of_int (2 ^ 52) \<le> x / u" using lo by simp
      then have "2 ^ 52 \<le> n" unfolding n_def u_def[symmetric] by (rule round_half_even_ge)
      then show ?thesis by simp
    next
      case False
      then have "\<bar>x\<bar> = - x" using x by simp
      then have "x / u \<le> of_int (- (2 ^ 52))" using lo by simp
      then have "n \<le> - (2 ^ 52)" unfolding n_def u_def[symmetric] by (rule round_half_even_le)
      then show ?thesis by simp
    qed
  qed
qed


lemma pow2_int_shift:
  assumes "a \<le> b"
  shows "pow2 b = of_int (2 ^ nat (b - a)) * pow2 a"
proof -
  have "pow2 (b - a + a) = pow2 (b - a) * pow2 a" by (rule pow2_add)
  then show ?thesis using assms by (simp add: pow2_nat)
qed

lemma to_double_exact_strict:
  assumes m: "\<bar>m\<bar> < 2 ^ 53" and k: "- 1074 \<le> k"
    and fin: "\<bar>of_int m * pow2 k\<bar> < pow2 1024"
  shows "to_double (of_int m * pow2 k) = Fin (of_int m * pow2 k)"
proof (cases "m = 0")
  case True
  then show ?thesis by (simp add: to_double_def)
next
  case False
  define x where "x = of_int m * pow2 k"
  have pk: "pow2 k \<noteq> 0" by simp
  have x0: "x \<noteq> 0" using False pk by (simp add: x_def)
  define e where "e = max (expo \<bar>x\<bar>) (- 1022)"
  have ax: "0 < \<bar>x\<bar>" using x0 by simp
  have "pow2 (expo \<bar>x\<bar>) \<le> \<bar>x\<bar>" using expo_bounds[OF ax] by simp
  also have "\<bar>x\<bar> = of_int \<bar>m\<bar> * pow2 k" by (simp add: x_def abs_mult)
  also have "\<dots> < of_int (2 ^ 53) * pow2 k"
    using m by (intro mult_strict_right_mono) (simp_all only: of_int_less_iff pow2_pos)
  also have "\<dots> = pow2 (53 + k)" by (simp add: pow2_add pow2_53)
  finally have "expo \<bar>x\<bar> < 53 + k" by (rule pow2_less_cancel)
  then have ek: "e - 52 \<le> k" using k by (simp add: e_def)
  define j where "j = nat (k - (e - 52))"
  have pk2: "pow2 k = of_int (2 ^ j) * pow2 (e - 52)"
    unfolding j_def by (rule pow2_int_shift[OF ek])
  have pe: "pow2 (e - 52) \<noteq> 0" by simp
  have q: "x / pow2 (e - 52) = of_int (m * 2 ^ j)"
    unfolding x_def pk2 using pe by simp
  have r: "of_int (round_half_even (x / pow2 (e - 52))) * pow2 (e - 52) = x"
    unfolding q round_half_even_of_int unfolding x_def pk2 by simp
  have "to_double x = Fin x"
    using to_double_anatomy(1)[OF x0] fin
    unfolding e_def[symmetric] r x_def[symmetric] by simp
  then show ?thesis by (simp add: x_def)
qed

lemma to_double_exact:
  assumes m: "\<bar>m\<bar> \<le> 2 ^ 53" and k: "- 1074 \<le> k"
    and fin: "\<bar>of_int m * pow2 k\<bar> < pow2 1024"
  shows "to_double (of_int m * pow2 k) = Fin (of_int m * pow2 k)"
proof (cases "\<bar>m\<bar> < 2 ^ 53")
  case True
  then show ?thesis using k fin by (rule to_double_exact_strict)
next
  case False
  then have "\<bar>m\<bar> = 2 ^ 53" using m by simp
  then have "m = 2 ^ 53 \<or> m = - (2 ^ 53)" by (simp add: abs_if split: if_splits)
  then obtain h where h: "m = 2 * h" and hb: "\<bar>h\<bar> < 2 ^ 53"
  proof
    assume "m = 2 ^ 53"
    then have "m = 2 * 2 ^ 52" by simp
    then show ?thesis using that[of "2 ^ 52"] by simp
  next
    assume "m = - (2 ^ 53)"
    then have "m = 2 * (- (2 ^ 52))" by simp
    then show ?thesis using that[of "- (2 ^ 52)"] by simp
  qed
  have "pow2 (k + 1) = pow2 k * 2" by (simp add: pow2_add)
  then have eq: "of_int m * pow2 k = of_int h * pow2 (k + 1)" by (simp add: h)
  have "to_double (of_int h * pow2 (k + 1)) = Fin (of_int h * pow2 (k + 1))"
    using hb k fin unfolding eq by (intro to_double_exact_strict) simp_all
  then show ?thesis by (simp only: eq)
qed

lemma pow2_1024_gt: "(2::rat) ^ 53 < pow2 1024"
  using pow2_strict_mono[of 53 1024] by (simp add: pow2_53)

lemma to_double_int:
  assumes "\<bar>n\<bar> \<le> 2 ^ 53"
  shows "to_double (of_int n) = Fin (of_int n)"
proof -
  have "\<bar>of_int n :: rat\<bar> \<le> 2 ^ 53"
    using assms by (metis of_int_abs of_int_le_iff of_int_numeral of_int_power)
  then have "\<bar>of_int n * pow2 0\<bar> < pow2 1024" using pow2_1024_gt by simp
  with assms have "to_double (of_int n * pow2 0) = Fin (of_int n * pow2 0)"
    by (intro to_double_exact) simp_all
  then show ?thesis by simp
qed

lemma to_double_0 [simp]: "to_double 0 = Fin 0"
  by (simp add: to_double_def)

lemma to_double_overflow:
  assumes "pow2 1024 \<le> \<bar>x\<bar>"
  shows "to_double x = (if 0 < x then PosInf else NegInf)"
proof -
  have ax: "0 < \<bar>x\<bar>" using assms pow2_pos[of 1024] by linarith
  then have x0: "x \<noteq> 0" by simp
  define e where "e = max (expo \<bar>x\<bar>) (- 1022)"
  define n where "n = round_half_even (x / pow2 (e - 52))"
  have "pow2 1024 < pow2 (expo \<bar>x\<bar> + 1)" using assms expo_bounds[OF ax] by simp
  then have "1024 < expo \<bar>x\<bar> + 1" by (rule pow2_less_cancel)
  then have e: "1024 \<le> e" by (simp add: e_def)
  have "pow2 (- 1022) \<le> pow2 1024" by (rule pow2_mono) simp
  then have "pow2 (- 1022) \<le> \<bar>x\<bar>" using assms by simp
  from to_double_anatomy(5)[OF x0 this] have n: "2 ^ 52 \<le> \<bar>n\<bar>"
    by (simp add: n_def e_def)
  have "pow2 1024 \<le> pow2 e" using e by (rule pow2_mono)
  also have "\<dots> = of_int (2 ^ 52) * pow2 (e - 52)"
    using pow2_int_shift[of "e - 52" e] by simp
  also have "\<dots> \<le> of_int \<bar>n\<bar> * pow2 (e - 52)"
    using n by (intro mult_right_mono) (simp_all only: of_int_le_iff pow2_pos less_imp_le)
  also have "\<dots> = \<bar>of_int n * pow2 (e - 52)\<bar>" by (simp add: abs_mult)
  finally show ?thesis
    using to_double_anatomy(1)[OF x0] by (simp add: n_def e_def)
qed

lemma to_double_nonneg:
  assumes "0 \<le> x"
  shows "to_double x = PosInf \<or> (\<exists>r. to_double x = Fin r \<and> 0 \<le> r)"
proof (cases "x = 0")
  case True
  then show ?thesis by simp
next
  case False
  then have p: "0 < x" using assms by simp
  from to_double_anatomy(1,3)[OF False] p show ?thesis
    by (auto simp: zero_le_mult_iff less_imp_le)
qed

lemma to_double_nonpos:
  assumes "x \<le> 0"
  shows "to_double x = NegInf \<or> (\<exists>r. to_double x = Fin r \<and> r \<le> 0)"
proof (cases "x = 0")
  case True
  then show ?thesis by simp
next
  case False
  then have p: "x < 0" using assms by simp
  from to_double_anatomy(1,4)[OF False] p show ?thesis
    by (auto simp: mult_le_0_iff less_imp_le)
qed

lemma to_double_idem:
  assumes "to_double x = Fin r"
  shows "to_double r = Fin r"
proof (cases "x = 0")
  case True
  with assms show ?thesis by simp
next
  case False
  define e where "e = max (expo \<bar>x\<bar>) (- 1022)"
  define n where "n = round_half_even (x / pow2 (e - 52))"
  from to_double_anatomy(1)[OF False] assms
  have r: "r = of_int n * pow2 (e - 52)" and fin: "\<bar>of_int n * pow2 (e - 52)\<bar> < pow2 1024"
    by (auto simp: e_def n_def not_le split: if_splits)
  have n: "\<bar>n\<bar> \<le> 2 ^ 53" using to_double_anatomy(2)[OF False] by (simp add: n_def e_def)
  have k: "- 1074 \<le> e - 52" by (simp add: e_def)
  show ?thesis unfolding r using n k fin by (rule to_double_exact)
qed

lemma to_double_le_pow2:
  assumes "0 \<le> x" and "x \<le> pow2 k" and "- 1074 \<le> k" and "k \<le> 1023"
  shows "\<exists>r. to_double x = Fin r \<and> 0 \<le> r \<and> r \<le> pow2 k"
proof (cases "x = 0")
  case True
  then show ?thesis using pow2_pos[of k] by (simp add: less_imp_le)
next
  case False
  then have p: "0 < x" using assms(1) by simp
  define e where "e = max (expo \<bar>x\<bar>) (- 1022)"
  define n where "n = round_half_even (x / pow2 (e - 52))"
  have "pow2 (expo x) \<le> x" using expo_bounds[OF p] by simp
  also have "\<dots> < pow2 (k + 1)" using assms(2) pow2_strict_mono[of k "k + 1"] by simp
  finally have "expo x < k + 1" by (rule pow2_less_cancel)
  then have ek: "e - 52 \<le> k" using assms(3) p by (simp add: e_def)
  define N where "N = (2::int) ^ nat (k - (e - 52))"
  have pk: "pow2 k = of_int N * pow2 (e - 52)"
    unfolding N_def by (rule pow2_int_shift[OF ek])
  have "x / pow2 (e - 52) \<le> of_int N" using assms(2) by (simp add: pk divide_le_eq)
  then have nN: "n \<le> N" unfolding n_def by (rule round_half_even_le)
  have n0: "0 \<le> n" using to_double_anatomy(3)[OF False p] by (simp add: n_def e_def)
  have "of_int n * pow2 (e - 52) \<le> of_int N * pow2 (e - 52)"
    using nN by (intro mult_right_mono) (simp_all only: of_int_le_iff pow2_pos less_imp_le)
  then have le: "of_int n * pow2 (e - 52) \<le> pow2 k" by (simp add: pk)
  have ge: "0 \<le> of_int n * pow2 (e - 52)" using n0 by (simp add: less_imp_le)
  have "pow2 k < pow2 1024" using assms(4) by (intro pow2_strict_mono) simp
  then have "\<not> pow2 1024 \<le> \<bar>of_int n * pow2 (e - 52)\<bar>" using le ge by simp
  then have "to_double x = Fin (of_int n * pow2 (e - 52))"
    using to_double_anatomy(1)[OF False] by (simp add: n_def e_def)
  then show ?thesis using le ge by simp
qed

lemma to_double_ge_pow2:
  assumes "pow2 k \<le> x" and "- 1074 \<le> k"
  shows "to_double x = PosInf \<or> (\<exists>r. to_double x = Fin r \<and> pow2 k \<le> r)"
proof -
  have p: "0 < x" using assms(1) pow2_pos[of k] by linarith
  then have x0: "x \<noteq> 0" by simp
  define e where "e = max (expo \<bar>x\<bar>) (- 1022)"
  define n where "n = round_half_even (x / pow2 (e - 52))"
  have n0: "0 \<le> n" using to_double_anatomy(3)[OF x0 p] by (simp add: n_def e_def)
  have "pow2 k < pow2 (expo x + 1)" using assms(1) expo_bounds[OF p] by simp
  then have kx: "k < expo x + 1" by (rule pow2_less_cancel)
  have "pow2 k \<le> of_int n * pow2 (e - 52)"
  proof (cases "- 1022 \<le> expo x")
    case True
    then have e: "e = expo x" using p by (simp add: e_def)
    have "pow2 (- 1022) \<le> pow2 (expo x)" using True by (rule pow2_mono)
    then have "pow2 (- 1022) \<le> \<bar>x\<bar>" using expo_bounds[OF p] p by simp
    from to_double_anatomy(5)[OF x0 this] n0 have n: "2 ^ 52 \<le> n" by (simp add: n_def e_def)
    have "pow2 k \<le> pow2 e" using kx by (intro pow2_mono) (simp add: e)
    also have "\<dots> = of_int (2 ^ 52) * pow2 (e - 52)"
      using pow2_int_shift[of "e - 52" e] by simp
    also have "\<dots> \<le> of_int n * pow2 (e - 52)"
      using n by (intro mult_right_mono) (simp_all only: of_int_le_iff pow2_pos less_imp_le)
    finally show ?thesis .
  next
    case False
    then have e: "e = - 1022" using p by (simp add: e_def)
    have ek: "e - 52 \<le> k" using assms(2) by (simp add: e)
    define N where "N = (2::int) ^ nat (k - (e - 52))"
    have pk: "pow2 k = of_int N * pow2 (e - 52)"
      unfolding N_def by (rule pow2_int_shift[OF ek])
    have "of_int N \<le> x / pow2 (e - 52)" using assms(1) by (simp add: pk le_divide_eq)
    then have "N \<le> n" unfolding n_def by (rule round_half_even_ge)
    then have "of_int N * pow2 (e - 52) \<le> of_int n * pow2 (e - 52)"
      by (intro mult_right_mono) (simp_all only: of_int_le_iff pow2_pos less_imp_le)
    then show ?thesis by (simp add: pk)
  qed
  then show ?thesis
    using to_double_anatomy(1)[OF x0] p by (simp add: n_def e_def)
qed


lemma whole_of_int [simp]: "whole (of_int n)"
  by (simp add: whole_def)

lemma whole_numeral [simp]: "whole (numeral n)"
  using whole_of_int[of "numeral n"] by simp

lemma whole_0 [simp]: "whole 0"
  by (simp add: whole_def)

lemma whole_1 [simp]: "whole 1"
  by (simp add: whole_def)

lemma wholeE:
  assumes "whole x"
  obtains n where "x = of_int n"
  using assms unfolding whole_def by metis

lemma whole_mult:
  assumes "whole a" and "whole b"
  shows "whole (a * b)"
proof -
  obtain m n where "a = of_int m" "b = of_int n" using assms by (auto elim!: wholeE)
  then have "a * b = of_int (m * n)" by simp
  then show ?thesis by (simp only: whole_of_int)
qed

lemma whole_diff:
  assumes "whole a" and "whole b"
  shows "whole (a - b)"
proof -
  obtain m n where "a = of_int m" "b = of_int n" using assms by (auto elim!: wholeE)
  then have "a - b = of_int (m - n)" by simp
  then show ?thesis by (simp only: whole_of_int)
qed

lemma to_double_whole:
  assumes "whole x" and "\<bar>x\<bar> \<le> 2 ^ 53"
  shows "to_double x = Fin x"
proof -
  obtain n where x: "x = of_int n" using assms(1) by (rule wholeE)
  have "\<bar>of_int n :: rat\<bar> \<le> 2 ^ 53" using assms(2) by (simp add: x)
  then have "\<bar>n\<bar> \<le> 2 ^ 53"
    by (metis of_int_abs of_int_le_iff of_int_numeral of_int_power)
  from to_double_int[OF this] show ?thesis by (simp add: x)
qed

lemma js_mul_whole:
  assumes "whole a" and "whole b" and "0 \<le> a * b" and "a * b \<le> 2 ^ 53"
  shows "js_mul (Fin a) (Fin b) = Fin (a * b)"
  using to_double_whole[OF whole_mult[OF assms(1,2)]] assms(3,4) by simp

lemma js_sub_whole:
  assumes "whole a" and "whole b"
    and "0 \<le> a" and "a \<le> 2 ^ 53" and "0 \<le> b" and "b \<le> 2 ^ 53"
  shows "js_sub (Fin a) (Fin b) = Fin (a - b)"
proof -
  have "\<bar>a - b\<bar> \<le> 2 ^ 53" using assms(3-6) by (simp add: abs_le_iff)
  from to_double_whole[OF whole_diff[OF assms(1,2)] this] show ?thesis by simp
qed

text \<open>
  \<open>qty <= 0\<close> holds of the double exactly when the quantity is 0 or less: rounding
  keeps the sign.
\<close>

lemma qty_le_0_iff: "js_le (to_double (of_int q)) (Fin 0) = (q \<le> 0)"
proof (cases "q \<le> 0")
  case True
  then have "(of_int q :: rat) \<le> 0" by simp
  from to_double_nonpos[OF this] show ?thesis using True by (auto simp: js_le_def)
next
  case False
  then have "pow2 0 \<le> (of_int q :: rat)" by simp
  from to_double_ge_pow2[OF this] show ?thesis using False by (auto simp: js_le_def)
qed

lemma Math_max_0_nonneg:
  assumes "0 \<le> x"
  shows "Math_max (Fin 0) (to_double x) = to_double x"
  using to_double_nonneg[OF assms] by (auto simp: Math_max_def)

lemma Math_max_0_neg:
  assumes "x < 0"
  shows "Math_max (Fin 0) (to_double x) = Fin 0"
proof -
  have "x \<le> 0" using assms by simp
  from to_double_nonpos[OF this] show ?thesis by (auto simp: Math_max_def)
qed

section \<open>Properties of the ROI calculation\<close>

lemma FREQUENCY_MULTIPLIER_cases:
  assumes "FREQUENCY_MULTIPLIER key = Some f"
  shows "f = 1 \<or> f = 4 \<or> f = 12 \<or> f = 52 \<or> f = 365"
  using assms by (auto simp: FREQUENCY_MULTIPLIER_def split: if_splits)

lemma FREQUENCY_MULTIPLIER_part000_cases:
  assumes "FREQUENCY_MULTIPLIER_part000 key = Some f"
  shows "f = 1 \<or> f = 4 \<or> f = 12 \<or> f = 52"
  using assms by (auto simp: FREQUENCY_MULTIPLIER_part000_def split: if_splits)

lemma recognized_cases:
  assumes "FM = FREQUENCY_MULTIPLIER \<or> FM = FREQUENCY_MULTIPLIER_part000"
    and "FM key = Some f"
  shows "f \<in> {1, 4, 12, 52, 365}"
  using assms FREQUENCY_MULTIPLIER_cases FREQUENCY_MULTIPLIER_part000_cases by fastforce

lemma calculateROI_nonpositive:
  assumes "quantity st \<le> 0"
  shows "calculateROI C FM st = invalid"
  using assms by (simp add: calculateROI_def qty_le_0_iff invalid_def Let_def)

text \<open>
  Where every product is exact, \<open>calculateROI\<close> is the following function of the two
  differences: the only rounding is that of the quotient.
\<close>

lemma calculateROI_exact:
  assumes q: "0 < quantity st" and f: "FM (cleaningFrequency st) = Some f"
    and ex: "exact_products C f st"
  shows "calculateROI C FM st =
     (if annualSavings C f st \<le> 0
      then unreachable
      else \<lparr> years = (if initialDifference C st / annualSavings C f st < 0 then Fin 0
                      else to_double (initialDifference C st / annualSavings C f st)),
             valid = True,
             savings = Some (Fin (annualSavings C f st)),
             initialDiff = Some (Fin (initialDifference C st)) \<rparr>)"
proof -
  define qr where "qr = (of_int (quantity st) :: rat)"
  define cu where "cu = curtainUnitCost C st"
  define co where "co = curtainOperatingCost C st"
  have wq: "whole qr" by (simp add: qr_def)
  have q0: "0 \<le> qr" using q by (simp add: qr_def)
  have w: "whole (silentiaScreen C)" "whole cu" "whole co" "whole (silentiaCleaning C)"
      "whole f"
    and n: "0 \<le> silentiaScreen C" "0 \<le> cu" "0 \<le> co" "0 \<le> silentiaCleaning C" "0 \<le> f"
    and b: "qr \<le> 2 ^ 53" "qr * silentiaScreen C \<le> 2 ^ 53" "qr * cu \<le> 2 ^ 53"
      "qr * co \<le> 2 ^ 53" "qr * co * f \<le> 2 ^ 53"
      "qr * silentiaCleaning C \<le> 2 ^ 53" "qr * silentiaCleaning C * f \<le> 2 ^ 53"
    using ex
    by (simp_all add: exact_products_def Let_def qr_def cu_def co_def curtainUnitCost_def
        curtainOperatingCost_def)
  have p: "0 \<le> qr * silentiaScreen C" "0 \<le> qr * cu" "0 \<le> qr * co" "0 \<le> qr * co * f"
      "0 \<le> qr * silentiaCleaning C" "0 \<le> qr * silentiaCleaning C * f"
    using q0 n by simp_all
  have qty: "to_double (of_int (quantity st)) = Fin qr"
    using to_double_whole[OF wq] q0 b(1) by (simp add: qr_def)
  have qp: "\<not> js_le (Fin qr) (Fin 0)" using q by (simp add: js_le_def qr_def)
  have si: "js_mul (Fin qr) (Fin (silentiaScreen C)) = Fin (qr * silentiaScreen C)"
    using wq w(1) p(1) b(2) by (rule js_mul_whole)
  have ci: "js_mul (Fin qr) (Fin cu) = Fin (qr * cu)"
    using wq w(2) p(2) b(3) by (rule js_mul_whole)
  have sa1: "js_mul (Fin qr) (Fin (silentiaCleaning C)) = Fin (qr * silentiaCleaning C)"
    using wq w(4) p(5) b(6) by (rule js_mul_whole)
  have sa: "js_mul (Fin (qr * silentiaCleaning C)) (Fin f) = Fin (qr * silentiaCleaning C * f)"
    using whole_mult[OF wq w(4)] w(5) p(6) b(7) by (rule js_mul_whole)
  have ca1: "js_mul (Fin qr) (Fin co) = Fin (qr * co)"
    using wq w(3) p(3) b(4) by (rule js_mul_whole)
  have ca: "js_mul (Fin (qr * co)) (Fin f) = Fin (qr * co * f)"
    using whole_mult[OF wq w(3)] w(5) p(4) b(5) by (rule js_mul_whole)
  have "js_sub (Fin (qr * silentiaScreen C)) (Fin (qr * cu))
      = Fin (qr * silentiaScreen C - qr * cu)"
    using whole_mult[OF wq w(1)] whole_mult[OF wq w(2)] p(1) b(2) p(2) b(3)
    by (rule js_sub_whole)
  then have d: "js_sub (Fin (qr * silentiaScreen C)) (Fin (qr * cu))
      = Fin (initialDifference C st)"
    by (simp add: initialDifference_def qr_def cu_def)
  have "js_sub (Fin (qr * co * f)) (Fin (qr * silentiaCleaning C * f))
      = Fin (qr * co * f - qr * silentiaCleaning C * f)"
    using whole_mult[OF whole_mult[OF wq w(3)] w(5)]
        whole_mult[OF whole_mult[OF wq w(4)] w(5)] p(4) b(5) p(6) b(7)
    by (rule js_sub_whole)
  then have sv: "js_sub (Fin (qr * co * f)) (Fin (qr * silentiaCleaning C * f))
      = Fin (annualSavings C f st)"
    by (simp add: annualSavings_def qr_def co_def)
  have body: "calculateROI C FM st =
     (if js_le (Fin (annualSavings C f st)) (Fin 0) then unreachable
      else \<lparr> years = Math_max (Fin 0)
                 (js_div (Fin (initialDifference C st)) (Fin (annualSavings C f st))),
             valid = True,
             savings = Some (Fin (annualSavings C f st)),
             initialDiff = Some (Fin (initialDifference C st)) \<rparr>)"
  proof (cases "curtainType st = ''textile''")
    case True
    then have "cu = textileCurtain C" "co = textileCleaning C"
      by (simp_all add: cu_def co_def curtainUnitCost_def curtainOperatingCost_def)
    then show ?thesis
      using f True si ci sa1 sa ca1 ca d sv
      by (simp add: calculateROI_def Let_def qty qp cleanings_def unreachable_def)
  next
    case False
    then have "cu = disposableCurtain C" "co = disposableReplacement C"
      by (simp_all add: cu_def co_def curtainUnitCost_def curtainOperatingCost_def)
    then show ?thesis
      using f False si ci sa1 sa ca1 ca d sv
      by (simp add: calculateROI_def Let_def qty qp cleanings_def unreachable_def)
  qed
  show ?thesis
  proof (cases "annualSavings C f st \<le> 0")
    case True
    then show ?thesis by (simp add: body js_le_def)
  next
    case False
    then have nz: "annualSavings C f st \<noteq> 0" by simp
    show ?thesis
    proof (cases "initialDifference C st / annualSavings C f st < 0")
      case True
      then show ?thesis
        using False nz Math_max_0_neg[OF True] by (simp add: body js_le_def)
    next
      case F2: False
      then have "0 \<le> initialDifference C st / annualSavings C f st" by simp
      from Math_max_0_nonneg[OF this] show ?thesis
        using False nz F2 by (simp add: body js_le_def)
    qed
  qed
qed


text \<open>The constants of the file, with a quantity up to \<open>MAX_EXACT_QUANTITY\<close>.\<close>

lemma exact_products_COSTS:
  assumes "0 < quantity st" and "quantity st \<le> MAX_EXACT_QUANTITY"
    and "FM = FREQUENCY_MULTIPLIER \<or> FM = FREQUENCY_MULTIPLIER_part000"
    and "FM (cleaningFrequency st) = Some f"
  shows "exact_products COSTS f st"
proof -
  have lo: "(0::rat) \<le> of_int (quantity st)" using assms(1) by simp
  have hi: "(of_int (quantity st) :: rat) \<le> 35253226045"
    using assms(2) by (simp add: MAX_EXACT_QUANTITY_def)
  have "f \<in> {1, 4, 12, 52, 365}" using assms(3,4) by (rule recognized_cases)
  then show ?thesis
    using lo hi by (auto simp: exact_products_def Let_def COSTS_def)
qed

lemma COSTS_savings:
  "annualSavings COSTS f st =
     (if curtainType st = ''textile'' then 43 else 695) * (of_int (quantity st) * f)"
  by (simp add: annualSavings_def curtainOperatingCost_def COSTS_def algebra_simps)

lemma COSTS_difference:
  "initialDifference COSTS st =
     (if curtainType st = ''textile'' then 510 else 610) * of_int (quantity st)"
  by (simp add: initialDifference_def curtainUnitCost_def COSTS_def algebra_simps)

lemma COSTS_quotient:
  assumes "0 < quantity st"
  shows "initialDifference COSTS st / annualSavings COSTS f st
     = (if curtainType st = ''textile'' then 510 / (43 * f) else 610 / (695 * f))"
  using assms by (simp add: COSTS_savings COSTS_difference)

lemma calculateROI_COSTS:
  assumes "0 < quantity st" and "quantity st \<le> MAX_EXACT_QUANTITY"
    and "FM = FREQUENCY_MULTIPLIER \<or> FM = FREQUENCY_MULTIPLIER_part000"
    and "FM (cleaningFrequency st) = Some f"
  shows "calculateROI COSTS FM st =
      \<lparr> years = to_double (initialDifference COSTS st / annualSavings COSTS f st),
        valid = True,
        savings = Some (Fin (annualSavings COSTS f st)),
        initialDiff = Some (Fin (initialDifference COSTS st)) \<rparr>"
proof -
  have f: "f \<in> {1, 4, 12, 52, 365}" using assms(3,4) by (rule recognized_cases)
  have q: "(0::rat) < of_int (quantity st)" using assms(1) by simp
  have sv: "0 < annualSavings COSTS f st" using f q by (auto simp: COSTS_savings)
  have d: "0 < initialDifference COSTS st" using q by (simp add: COSTS_difference)
  have "0 < initialDifference COSTS st / annualSavings COSTS f st" using sv d by simp
  then show ?thesis
    using calculateROI_exact[of st FM f COSTS, OF assms(1,4) exact_products_COSTS[OF assms]] sv
    by simp
qed

text \<open>Rules that evaluate \<open>to_double\<close> on a fraction of numerals.\<close>

lemma floor_rat_numeral [simp]:
  "\<lfloor>numeral a / numeral b :: rat\<rfloor> = numeral a div numeral b"
  using floor_divide_of_int_eq[of "numeral a" "numeral b", where ?'a = rat] by simp

lemma ceiling_rat_numeral [simp]:
  "\<lceil>numeral a / numeral b :: rat\<rceil> = - ((- numeral a) div numeral b)"
  using ceiling_divide_eq_div[of "numeral a" "numeral b", where ?'a = rat] by simp

lemma flog2_numeral:
  "flog2 (numeral k) = (if (numeral k :: nat) < 2 then 0 else Suc (flog2 (numeral k div 2)))"
  by (rule flog2.simps)

lemma flog2_0: "flog2 0 = 0"
  by (simp add: flog2.simps)

lemma flog2_1: "flog2 (Suc 0) = 0"
  by (simp add: flog2.simps)

lemmas to_double_eval = to_double_def expo_def clog2_def flog2_numeral flog2_0 flog2_1 Let_def
  round_half_even_def pow2_def

text \<open>Doubles far beyond \<open>2^53\<close>: a whole number times a power of two, and the overflow.\<close>

lemma to_double_scaled:
  assumes "\<bar>m\<bar> \<le> 2 ^ 53" and "\<bar>of_int m :: rat\<bar> * 2 ^ k < 2 ^ 1024"
  shows "to_double (of_int m * 2 ^ k) = Fin (of_int m * 2 ^ k)"
proof -
  have p: "pow2 (int k) = 2 ^ k" by (simp add: pow2_def)
  have "\<bar>of_int m * pow2 (int k)\<bar> < pow2 1024"
    using assms(2) by (simp add: p abs_mult pow2_def)
  with assms(1) have "to_double (of_int m * pow2 (int k)) = Fin (of_int m * pow2 (int k))"
    by (intro to_double_exact) simp_all
  then show ?thesis by (simp only: p)
qed

lemma to_double_huge:
  assumes "2 ^ 1024 \<le> x"
  shows "to_double x = PosInf"
proof -
  have p: "pow2 1024 = 2 ^ 1024" by (simp add: pow2_def)
  have "(0::rat) < 2 ^ 1024" by simp
  then have x: "0 < x" using assms by linarith
  then have "pow2 1024 \<le> \<bar>x\<bar>" using assms by (simp only: p abs_of_pos)
  from to_double_overflow[OF this] x show ?thesis by simp
qed


lemma years_textile_quarterly:
  "to_double (510 / (43 * 4)) = Fin (3338424142382199 / 1125899906842624)"
  by (simp add: to_double_eval)

lemma years_disposable_daily:
  "to_double (610 / 253675) = Fin (43318352580207 / 18014398509481984)"
  by (simp add: to_double_eval)

lemma years_disposable_weekly:
  "to_double (610 / (695 * 52)) = Fin (4864984212854017 / 288230376151711744)"
  by (simp add: to_double_eval)

text \<open>
  C1, where every product is exact. For every quantity from 1 to \<open>MAX_EXACT_QUANTITY\<close>,
  every material and every frequency of the table (of either variant) with multiplier
  \<open>f\<close>, \<open>calculateROI\<close> returns a valid result whose years is the double nearest to
  (quantity * 1310 - quantity * unit cost) / (quantity * operating cost * f -
  quantity * 5 * f), the unit cost being 800 for textile and 700 otherwise, the
  operating cost 48 for textile and 700 otherwise. For 100 textile curtains cleaned
  quarterly that double is 3338424142382199 / 2^50, less than \<open>10^-15\<close> from
  51000/17200, which is 2.965 to three decimals.
\<close>

theorem break_even_exact_range:
  assumes "0 < quantity st" and "quantity st \<le> MAX_EXACT_QUANTITY"
    and "FM = FREQUENCY_MULTIPLIER \<or> FM = FREQUENCY_MULTIPLIER_part000"
    and "FM (cleaningFrequency st) = Some f"
  shows "valid (calculateROI COSTS FM st)
     \<and> years (calculateROI COSTS FM st) =
         to_double ((of_int (quantity st) * 1310
                - of_int (quantity st) * (if curtainType st = ''textile'' then 800 else 700))
              / (of_int (quantity st) * (if curtainType st = ''textile'' then 48 else 700) * f
                - of_int (quantity st) * 5 * f))
     \<and> years (calculateROI COSTS FREQUENCY_MULTIPLIER
          \<lparr>curtainType = ''textile'', cleaningFrequency = ''quarterly'', quantity = 100\<rparr>)
        = Fin (3338424142382199 / 1125899906842624)
     \<and> \<bar>3338424142382199 / 1125899906842624 - 51000 / 17200\<bar> < (1 / 10 ^ 15 :: rat)
     \<and> \<bar>51000 / 17200 - 2965 / 1000\<bar> < (1 / 1000 :: rat)"
proof -
  have "years (calculateROI COSTS FREQUENCY_MULTIPLIER
          \<lparr>curtainType = ''textile'', cleaningFrequency = ''quarterly'', quantity = 100\<rparr>)
        = Fin (3338424142382199 / 1125899906842624)"
    using calculateROI_COSTS[of
        "\<lparr>curtainType = ''textile'', cleaningFrequency = ''quarterly'', quantity = 100\<rparr>"
        FREQUENCY_MULTIPLIER 4] years_textile_quarterly
    by (simp add: FREQUENCY_MULTIPLIER_def MAX_EXACT_QUANTITY_def COSTS_quotient)
  then show ?thesis
    using calculateROI_COSTS[OF assms]
    by (simp add: annualSavings_def initialDifference_def curtainUnitCost_def
        curtainOperatingCost_def COSTS_def)
qed

theorem break_even_exact_range_witness:
  "0 < quantity \<lparr>curtainType = ''disposable'', cleaningFrequency = ''weekly'', quantity = 50\<rparr>
   \<and> quantity \<lparr>curtainType = ''disposable'', cleaningFrequency = ''weekly'', quantity = 50\<rparr>
       \<le> MAX_EXACT_QUANTITY
   \<and> FREQUENCY_MULTIPLIER ''weekly'' = Some 52
   \<and> years (calculateROI COSTS FREQUENCY_MULTIPLIER
        \<lparr>curtainType = ''disposable'', cleaningFrequency = ''weekly'', quantity = 50\<rparr>)
      = Fin (4864984212854017 / 288230376151711744)"
  using break_even_exact_range[of
      "\<lparr>curtainType = ''disposable'', cleaningFrequency = ''weekly'', quantity = 50\<rparr>"
      FREQUENCY_MULTIPLIER 52] years_disposable_weekly
  by (simp add: FREQUENCY_MULTIPLIER_def MAX_EXACT_QUANTITY_def)

text \<open>
  Beyond that range the products are rounded, and from about \<open>10^304\<close> on they
  overflow. With a quantity of \<open>2^1020\<close> textile curtains cleaned quarterly both
  initial costs and both annual costs are infinite, the two differences are NaN, NaN
  is not \<open><= 0\<close>, and the result is valid with years NaN, while the quotient of the
  claim is 51000/17200.
\<close>

theorem break_even_overflow:
  "calculateROI COSTS FREQUENCY_MULTIPLIER
      \<lparr>curtainType = ''textile'', cleaningFrequency = ''quarterly'', quantity = 2 ^ 1020\<rparr>
    = \<lparr> years = NaN, valid = True, savings = Some NaN, initialDiff = Some NaN \<rparr>
   \<and> ((2 ^ 1020 * 1310 - 2 ^ 1020 * 800) / (2 ^ 1020 * 48 * 4 - 2 ^ 1020 * 5 * 4) :: rat)
     = 51000 / 17200"
proof -
  have q: "to_double (2 ^ 1020) = Fin (2 ^ 1020)"
    using to_double_scaled[of 1 1020] by simp
  have a: "to_double (2 ^ 1020 * 1310) = PosInf" "to_double (2 ^ 1020 * 800) = PosInf"
    "to_double (2 ^ 1020 * 48) = PosInf"
    by (rule to_double_huge, simp)+
  have b: "to_double (2 ^ 1020 * 5) = Fin (2 ^ 1020 * 5)"
    using to_double_scaled[of 5 1020] by (simp add: mult.commute)
  have c: "to_double (2 ^ 1020 * 5 * 4) = PosInf"
    by (rule to_double_huge) simp
  show ?thesis
    using q a b c
    by (simp add: calculateROI_def Let_def COSTS_def FREQUENCY_MULTIPLIER_def cleanings_def
        js_le_def Math_max_def)
qed

section \<open>No data, and the degenerate cases\<close>

lemma calculateResources_None:
  "(calculateResources E FM st = None) = (quantity st \<le> 0)"
  by (simp add: calculateResources_def Let_def qty_le_0_iff)

lemma calculateResources_part000_None:
  "(calculateResources_part000 E FM st = None) = (quantity st \<le> 0)"
  by (simp add: calculateResources_part000_def Let_def qty_le_0_iff)

text \<open>
  C2. For every quantity that is 0 or negative, with any material and frequency (and
  any tables), \<open>calculateROI\<close> returns the invalid state (years 0, not valid) and
  \<open>calculateResources\<close>, in both variants, returns \<open>null\<close>. \<open>null\<close> is returned for
  no other state, so it is never the result of a calculation.
\<close>

theorem nonpositive_quantity:
  assumes "quantity st \<le> 0"
  shows "calculateROI C FM st
       = \<lparr> years = Fin 0, valid = False, savings = None, initialDiff = None \<rparr>
     \<and> calculateResources E FM st = None
     \<and> calculateResources_part000 E FM st = None
     \<and> (\<forall>st'. (calculateResources E FM st' = None) = (quantity st' \<le> 0))
     \<and> (\<forall>st'. (calculateResources_part000 E FM st' = None) = (quantity st' \<le> 0))"
  using assms calculateROI_nonpositive[of st C FM]
  by (simp add: calculateResources_None calculateResources_part000_None invalid_def)

theorem nonpositive_quantity_witness:
  "quantity \<lparr>curtainType = ''textile'', cleaningFrequency = ''weekly'', quantity = 0\<rparr> \<le> 0
   \<and> calculateROI COSTS FREQUENCY_MULTIPLIER
        \<lparr>curtainType = ''textile'', cleaningFrequency = ''weekly'', quantity = 0\<rparr>
      = \<lparr> years = Fin 0, valid = False, savings = None, initialDiff = None \<rparr>
   \<and> calculateResources ENVIRONMENTAL FREQUENCY_MULTIPLIER
        \<lparr>curtainType = ''textile'', cleaningFrequency = ''weekly'', quantity = 0\<rparr> = None
   \<and> calculateResources ENVIRONMENTAL FREQUENCY_MULTIPLIER
        \<lparr>curtainType = ''textile'', cleaningFrequency = ''weekly'', quantity = - 5\<rparr> = None"
  using nonpositive_quantity[of "\<lparr>curtainType = ''textile'', cleaningFrequency = ''weekly'', quantity = 0\<rparr>"
      COSTS FREQUENCY_MULTIPLIER ENVIRONMENTAL]
    nonpositive_quantity[of "\<lparr>curtainType = ''textile'', cleaningFrequency = ''weekly'', quantity = - 5\<rparr>"
      COSTS FREQUENCY_MULTIPLIER ENVIRONMENTAL]
  by simp




text \<open>
  A frequency key that the table does not have (\<open>daily\<close> in the second variant) gives
  such a result as well: with a quantity above 0 the result is valid, its years is
  NaN, and both variants of \<open>displayResults\<close> show NaN YEAR.
\<close>

lemma calculateROI_unrecognized:
  assumes "0 < quantity st" and "FM (cleaningFrequency st) = None"
  shows "valid (calculateROI C FM st) \<and> years (calculateROI C FM st) = NaN"
proof -
  have "\<And>x. js_mul x NaN = NaN" by (case_tac x) simp_all
  moreover have "\<And>x. js_div x NaN = NaN" by (case_tac x) simp_all
  moreover have "\<not> js_le NaN (Fin 0)" by (simp add: js_le_def)
  ultimately show ?thesis
    using assms
    by (simp add: calculateROI_def Let_def cleanings_def qty_le_0_iff Math_max_def)
qed

theorem unrecognized_frequency:
  assumes "0 < quantity st" and "FM (cleaningFrequency st) = None"
  shows "valid (calculateROI C FM st) \<and> years (calculateROI C FM st) = NaN
     \<and> displayResults C FM st = (''NaN'', ''YEAR'')
     \<and> displayResults_part000 C FM st = (''NaN'', ''YEAR'')"
  using calculateROI_unrecognized[of st FM C, OF assms]
  by (simp add: displayResults_def displayResults_part000_def displayROI_def
      displayROI_part000_def Let_def js_gt_def js_le_def toFixed.simps)

theorem unrecognized_frequency_witness:
  "FREQUENCY_MULTIPLIER_part000 ''daily'' = None
   \<and> displayResults_part000 COSTS FREQUENCY_MULTIPLIER_part000
        \<lparr>curtainType = ''textile'', cleaningFrequency = ''daily'', quantity = 10\<rparr>
      = (''NaN'', ''YEAR'')
   \<and> years (calculateROI COSTS FREQUENCY_MULTIPLIER
        \<lparr>curtainType = ''textile'', cleaningFrequency = ''hourly'', quantity = 10\<rparr>) = NaN"
  using unrecognized_frequency[of
      "\<lparr>curtainType = ''textile'', cleaningFrequency = ''daily'', quantity = 10\<rparr>"
      FREQUENCY_MULTIPLIER_part000 COSTS]
    unrecognized_frequency[of
      "\<lparr>curtainType = ''textile'', cleaningFrequency = ''hourly'', quantity = 10\<rparr>"
      FREQUENCY_MULTIPLIER COSTS]
  by (simp add: FREQUENCY_MULTIPLIER_def FREQUENCY_MULTIPLIER_part000_def)


section \<open>The quantity cancels\<close>

lemma savings_factor:
  "annualSavings C f st
     = of_int (quantity st) * ((curtainOperatingCost C st - silentiaCleaning C) * f)"
  by (simp add: annualSavings_def algebra_simps)

lemma difference_factor:
  "initialDifference C st = of_int (quantity st) * (silentiaScreen C - curtainUnitCost C st)"
  by (simp add: initialDifference_def algebra_simps)

lemma years_quantity_free:
  assumes "0 < quantity st" and "FM (cleaningFrequency st) = Some f"
    and "exact_products C f st"
  shows "years (calculateROI C FM st) =
     (if (curtainOperatingCost C st - silentiaCleaning C) * f \<le> 0 then Fin 999
      else if (silentiaScreen C - curtainUnitCost C st)
                / ((curtainOperatingCost C st - silentiaCleaning C) * f) < 0 then Fin 0
      else to_double ((silentiaScreen C - curtainUnitCost C st)
                        / ((curtainOperatingCost C st - silentiaCleaning C) * f)))"
    and "valid (calculateROI C FM st) = (0 < (curtainOperatingCost C st - silentiaCleaning C) * f)"
proof -
  define q where "q = (of_int (quantity st) :: rat)"
  define a where "a = silentiaScreen C - curtainUnitCost C st"
  define b where "b = (curtainOperatingCost C st - silentiaCleaning C) * f"
  have q: "0 < q" using assms(1) by (simp add: q_def)
  have sv: "annualSavings C f st = q * b" by (simp add: savings_factor q_def b_def)
  have d: "initialDifference C st = q * a" by (simp add: difference_factor q_def a_def)
  have le: "(q * b \<le> 0) = (b \<le> 0)" using q by (simp add: mult_le_0_iff)
  have quot: "q * a / (q * b) = a / b" using q by simp
  note r = calculateROI_exact[of st FM f C, OF assms]
  show "years (calculateROI C FM st) =
     (if (curtainOperatingCost C st - silentiaCleaning C) * f \<le> 0 then Fin 999
      else if (silentiaScreen C - curtainUnitCost C st)
                / ((curtainOperatingCost C st - silentiaCleaning C) * f) < 0 then Fin 0
      else to_double ((silentiaScreen C - curtainUnitCost C st)
                        / ((curtainOperatingCost C st - silentiaCleaning C) * f)))"
    unfolding r sv d le quot a_def[symmetric] b_def[symmetric]
    by (simp add: unreachable_def)
  show "valid (calculateROI C FM st) = (0 < (curtainOperatingCost C st - silentiaCleaning C) * f)"
    unfolding r sv d le quot a_def[symmetric] b_def[symmetric]
    by (auto simp add: unreachable_def)
qed

text \<open>
  C4, where every product is exact. For two quantities above 0, the same material and
  the same frequency (a key of the table), \<open>calculateROI\<close> returns the same years,
  whatever the cost table, provided that with both quantities every product is a
  whole number up to \<open>2^53\<close>; with the constants of the file that is every quantity
  up to \<open>MAX_EXACT_QUANTITY\<close>.
\<close>

theorem quantity_independent_exact_range:
  assumes "0 < quantity s1" and "0 < quantity s2"
    and "curtainType s1 = curtainType s2"
    and "cleaningFrequency s1 = cleaningFrequency s2"
    and "FM (cleaningFrequency s1) = Some f"
    and "exact_products C f s1" and "exact_products C f s2"
  shows "years (calculateROI C FM s1) = years (calculateROI C FM s2)
     \<and> valid (calculateROI C FM s1) = valid (calculateROI C FM s2)"
proof -
  have f2: "FM (cleaningFrequency s2) = Some f" using assms(4,5) by simp
  have u: "curtainUnitCost C s1 = curtainUnitCost C s2"
    and o: "curtainOperatingCost C s1 = curtainOperatingCost C s2"
    using assms(3) by (simp_all add: curtainUnitCost_def curtainOperatingCost_def)
  show ?thesis
    unfolding years_quantity_free[of s1 FM f C, OF assms(1,5,6)]
      years_quantity_free[of s2 FM f C, OF assms(2) f2 assms(7)] u o
    by simp
qed

theorem quantity_independent_exact_range_witness:
  "exact_products COSTS 52
      \<lparr>curtainType = ''disposable'', cleaningFrequency = ''weekly'', quantity = 50\<rparr>
   \<and> exact_products COSTS 52
      \<lparr>curtainType = ''disposable'', cleaningFrequency = ''weekly'', quantity = MAX_EXACT_QUANTITY\<rparr>
   \<and> years (calculateROI COSTS FREQUENCY_MULTIPLIER
      \<lparr>curtainType = ''disposable'', cleaningFrequency = ''weekly'', quantity = 50\<rparr>)
   = years (calculateROI COSTS FREQUENCY_MULTIPLIER
      \<lparr>curtainType = ''disposable'', cleaningFrequency = ''weekly'',
        quantity = MAX_EXACT_QUANTITY\<rparr>)"
  using quantity_independent_exact_range[of
      "\<lparr>curtainType = ''disposable'', cleaningFrequency = ''weekly'', quantity = 50\<rparr>"
      "\<lparr>curtainType = ''disposable'', cleaningFrequency = ''weekly'',
        quantity = MAX_EXACT_QUANTITY\<rparr>"
      FREQUENCY_MULTIPLIER 52 COSTS]
  by (simp add: FREQUENCY_MULTIPLIER_def exact_products_def COSTS_def MAX_EXACT_QUANTITY_def)

text \<open>
  Beyond that range the products are rounded before they are divided. One textile
  curtain cleaned yearly breaks even after 3338424142382199 / 2^48 years
  (11.86046511627907), \<open>10^15 + 1\<close> of them after 6676848284764399 / 2^49 years
  (11.860465116279071), the next double: there the annual savings are computed as
  43000000000000040 and the initial difference as 510000000000000512.
\<close>

theorem quantity_dependent:
  "calculateROI COSTS FREQUENCY_MULTIPLIER
      \<lparr>curtainType = ''textile'', cleaningFrequency = ''yearly'', quantity = 1\<rparr>
    = \<lparr> years = Fin (3338424142382199 / 281474976710656), valid = True,
        savings = Some (Fin 43), initialDiff = Some (Fin 510) \<rparr>
   \<and> calculateROI COSTS FREQUENCY_MULTIPLIER
      \<lparr>curtainType = ''textile'', cleaningFrequency = ''yearly'',
        quantity = 1000000000000001\<rparr>
    = \<lparr> years = Fin (6676848284764399 / 562949953421312), valid = True,
        savings = Some (Fin 43000000000000040),
        initialDiff = Some (Fin 510000000000000512) \<rparr>
   \<and> (3338424142382199 / 281474976710656 :: rat) \<noteq> 6676848284764399 / 562949953421312"
  by (simp add: calculateROI_def Let_def COSTS_def FREQUENCY_MULTIPLIER_def cleanings_def
      js_le_def Math_max_def to_double_eval)

section \<open>The constants of the file\<close>

text \<open>
  C10, where every product is exact. With the constants of the file, for every
  quantity from 1 to \<open>MAX_EXACT_QUANTITY\<close> and every frequency of the table (of either
  variant), the annual savings and the initial difference are both above 0: the
  result is valid and never the unreachable state, its years is the double nearest to
  the quotient (the clamp at 0 changes nothing), a finite number above 0 and
  different from 999.
\<close>

theorem baked_in_costs_exact_range:
  assumes "0 < quantity st" and "quantity st \<le> MAX_EXACT_QUANTITY"
    and "FM = FREQUENCY_MULTIPLIER \<or> FM = FREQUENCY_MULTIPLIER_part000"
    and "FM (cleaningFrequency st) = Some f"
  shows "0 < annualSavings COSTS f st
     \<and> 0 < initialDifference COSTS st
     \<and> savings (calculateROI COSTS FM st) = Some (Fin (annualSavings COSTS f st))
     \<and> initialDiff (calculateROI COSTS FM st) = Some (Fin (initialDifference COSTS st))
     \<and> valid (calculateROI COSTS FM st)
     \<and> calculateROI COSTS FM st \<noteq> unreachable
     \<and> years (calculateROI COSTS FM st)
         = to_double (initialDifference COSTS st / annualSavings COSTS f st)
     \<and> 0 < initialDifference COSTS st / annualSavings COSTS f st
     \<and> (\<exists>y. years (calculateROI COSTS FM st) = Fin y \<and> 0 < y \<and> y \<le> 16)
     \<and> years (calculateROI COSTS FM st) \<noteq> Fin 999"
proof -
  have f: "f \<in> {1, 4, 12, 52, 365}" using assms(3,4) by (rule recognized_cases)
  have q: "(0::rat) < of_int (quantity st)" using assms(1) by simp
  have sv: "0 < annualSavings COSTS f st" using f q by (auto simp: COSTS_savings)
  have d: "0 < initialDifference COSTS st" using q by (simp add: COSTS_difference)
  have pos: "0 < initialDifference COSTS st / annualSavings COSTS f st" using sv d by simp
  define y where "y = initialDifference COSTS st / annualSavings COSTS f st"
  have y: "y = (if curtainType st = ''textile'' then 510 / (43 * f) else 610 / (695 * f))"
    unfolding y_def using assms(1) by (rule COSTS_quotient)
  have lo: "pow2 (- 9) \<le> y" using f by (auto simp: y pow2_def)
  have hi: "y \<le> pow2 4" using f by (auto simp: y pow2_def)
  have y0: "0 \<le> y" using pos by (simp add: y_def)
  from to_double_le_pow2[OF y0 hi] obtain r where r: "to_double y = Fin r" "r \<le> pow2 4"
    by auto
  from to_double_ge_pow2[OF lo] r(1) have "pow2 (- 9) \<le> r" by simp
  then have "0 < r" using pow2_pos[of "- 9"] by linarith
  moreover have "r \<le> 16" using r(2) by (simp add: pow2_def)
  ultimately have ex: "\<exists>r. to_double y = Fin r \<and> 0 < r \<and> r \<le> 16" using r(1) by blast
  then have ne: "to_double y \<noteq> Fin 999" by auto
  show ?thesis
    using sv d pos ex ne unfolding calculateROI_COSTS[of st FM f, OF assms] y_def
    by (simp add: unreachable_def)
qed

theorem baked_in_costs_exact_range_witness:
  "0 < annualSavings COSTS 365
        \<lparr>curtainType = ''disposable'', cleaningFrequency = ''daily'', quantity = 1\<rparr>
   \<and> valid (calculateROI COSTS FREQUENCY_MULTIPLIER
        \<lparr>curtainType = ''disposable'', cleaningFrequency = ''daily'', quantity = 1\<rparr>)
   \<and> years (calculateROI COSTS FREQUENCY_MULTIPLIER
        \<lparr>curtainType = ''disposable'', cleaningFrequency = ''daily'', quantity = 1\<rparr>)
      = Fin (43318352580207 / 18014398509481984)"
  using baked_in_costs_exact_range[of
      "\<lparr>curtainType = ''disposable'', cleaningFrequency = ''daily'', quantity = 1\<rparr>"
      FREQUENCY_MULTIPLIER 365] years_disposable_daily
  by (simp add: FREQUENCY_MULTIPLIER_def COSTS_savings COSTS_difference MAX_EXACT_QUANTITY_def)

text \<open>
  With \<open>2^1010\<close> disposable curtains replaced daily the annual cost of the curtains
  overflows to infinity while the other amounts stay finite: the annual savings are
  infinite, the quotient of a finite difference by infinity is 0, and the result is
  valid with years 0, not above 0.
\<close>

theorem zero_years_valid:
  "calculateROI COSTS FREQUENCY_MULTIPLIER
      \<lparr>curtainType = ''disposable'', cleaningFrequency = ''daily'', quantity = 2 ^ 1010\<rparr>
    = \<lparr> years = Fin 0, valid = True, savings = Some PosInf,
        initialDiff = Some (Fin (2 ^ 1010 * 610)) \<rparr>"
proof -
  have q: "to_double (2 ^ 1010) = Fin (2 ^ 1010)"
    using to_double_scaled[of 1 1010] by simp
  have a: "to_double (2 ^ 1010 * 1310) = Fin (2 ^ 1010 * 1310)"
    using to_double_scaled[of 1310 1010] by (simp add: mult.commute)
  have b: "to_double (2 ^ 1010 * 700) = Fin (2 ^ 1010 * 700)"
    using to_double_scaled[of 700 1010] by (simp add: mult.commute)
  have c: "to_double (2 ^ 1010 * 5) = Fin (2 ^ 1010 * 5)"
    using to_double_scaled[of 5 1010] by (simp add: mult.commute)
  have d: "to_double (2 ^ 1010 * 5 * 365) = Fin (2 ^ 1010 * 5 * 365)"
    using to_double_scaled[of 1825 1010] by (simp add: mult.commute)
  have e: "to_double (2 ^ 1010 * 700 * 365) = PosInf"
    by (rule to_double_huge) simp
  have g: "to_double (2 ^ 1010 * 1310 - 2 ^ 1010 * 700) = Fin (2 ^ 1010 * 610)"
    using to_double_scaled[of 610 1010] by (simp add: mult.commute)
  show ?thesis
    using q a b c d e g
    by (simp add: calculateROI_def Let_def COSTS_def FREQUENCY_MULTIPLIER_def cleanings_def
        js_le_def Math_max_def)
qed


section \<open>Digits, \<open>toFixed\<close> and \<open>parseFloat\<close>\<close>

text \<open>Rules that evaluate \<open>digits\<close> on a numeral.\<close>

lemma digits_0: "digits 0 = ''0''"
  by (simp add: digits.simps digit_def)

lemma digits_1: "digits (Suc 0) = ''1''"
  by (simp add: digits.simps digit_def)

lemma digits_numeral:
  "digits (numeral k) =
     (if (numeral k :: nat) < 10 then [digit (numeral k)]
      else digits (numeral k div 10) @ [digit (numeral k mod 10)])"
  by (rule digits.simps)

lemmas digits_eval = digits_0 digits_1 digits_numeral digit_def

lemma one_digit:
  assumes "n < (10::nat)"
  shows "n \<in> {0, 1, 2, 3, 4, 5, 6, 7, 8, 9}"
  using assms by auto

lemma digit_is_digit:
  assumes "n < 10"
  shows "is_digit (digit n)"
  using one_digit[OF assms] by (auto simp: is_digit_def digit_def)

lemma digit_val_digit:
  assumes "n < 10"
  shows "digit_val (digit n) = n"
  using one_digit[OF assms] by (auto simp: digit_val_def digit_def)

lemma digits_are_digits: "\<forall>c \<in> set (digits n). is_digit c"
proof (induction n rule: digits.induct)
  case (1 n)
  show ?case
  proof (cases "n < 10")
    case True
    then show ?thesis by (simp add: digits.simps[of n] digit_is_digit)
  next
    case False
    with 1 show ?thesis by (simp add: digits.simps[of n] digit_is_digit)
  qed
qed

lemma digits_not_Nil: "digits n \<noteq> []"
  by (simp add: digits.simps[of n])

text \<open>Reading the digits of a number gives the number back.\<close>

lemma parse_nat_snoc: "parse_nat (s @ [c]) = parse_nat s * 10 + digit_val c"
  by (simp add: parse_nat_def)

lemma parse_nat_append: "parse_nat (a @ b) = parse_nat a * 10 ^ length b + parse_nat b"
proof (induction b rule: rev_induct)
  case Nil
  show ?case by (simp add: parse_nat_def)
next
  case (snoc c b)
  have "parse_nat (a @ b @ [c]) = parse_nat ((a @ b) @ [c])" by simp
  also have "\<dots> = parse_nat (a @ b) * 10 + digit_val c" by (rule parse_nat_snoc)
  also have "\<dots> = (parse_nat a * 10 ^ length b + parse_nat b) * 10 + digit_val c"
    by (simp add: snoc.IH)
  also have "\<dots> = parse_nat a * 10 ^ length (b @ [c]) + parse_nat (b @ [c])"
    by (simp add: parse_nat_snoc algebra_simps)
  finally show ?case .
qed

lemma parse_nat_digits: "parse_nat (digits n) = n"
proof (induction n rule: digits.induct)
  case (1 n)
  show ?case
  proof (cases "n < 10")
    case True
    then show ?thesis by (simp add: digits.simps[of n] parse_nat_def digit_val_digit)
  next
    case False
    then have "parse_nat (digits n) = parse_nat (digits (n div 10)) * 10 + digit_val (digit (n mod 10))"
      by (simp add: digits.simps[of n] parse_nat_snoc)
    also have "\<dots> = (n div 10) * 10 + n mod 10"
      using 1 False by (simp add: digit_val_digit)
    finally show ?thesis by simp
  qed
qed

lemma parse_nat_zeros: "parse_nat (replicate k (CHR ''0'') @ s) = parse_nat s"
proof -
  have "parse_nat (replicate k (CHR ''0'')) = 0"
  proof (induction k)
    case 0
    show ?case by (simp add: parse_nat_def)
  next
    case (Suc k)
    have "replicate (Suc k) (CHR ''0'') = replicate k (CHR ''0'') @ [CHR ''0'']"
      by (simp add: replicate_append_same)
    then have "parse_nat (replicate (Suc k) (CHR ''0''))
        = parse_nat (replicate k (CHR ''0'')) * 10 + digit_val (CHR ''0'')"
      by (simp only: parse_nat_snoc)
    with Suc show ?case by (simp add: digit_val_def)
  qed
  then show ?thesis by (simp add: parse_nat_append)
qed

text \<open>
  A digit string with a point before the last digits, and nothing after them, parses
  to the double nearest to the quotient.
\<close>

lemma parseFloat_point:
  assumes a: "\<forall>c \<in> set a. is_digit c" and b: "\<forall>c \<in> set b. is_digit c" and ne: "a \<noteq> []"
  shows "parseFloat (a @ ''.'' @ b)
     = to_double (of_nat (parse_nat a) + of_nat (parse_nat b) / 10 ^ length b)"
proof -
  define s where "s = a @ ''.'' @ b"
  obtain c a' where ac: "a = c # a'" using ne by (cases a) auto
  have c: "is_digit c" using a ac by simp
  then have c1: "c \<noteq> CHR ''-''" and c2: "c \<noteq> CHR ''+''" and c3: "c \<noteq> CHR ''I''"
    by (auto simp: is_digit_def)
  have nd: "\<not> is_digit (CHR ''.'')" by (simp add: is_digit_def)
  have tw: "takeWhile is_digit s = a"
    using a nd by (simp add: s_def)
  have dw: "dropWhile is_digit s = ''.'' @ b"
    using a nd by (simp add: s_def)
  have twb: "takeWhile is_digit b = b" using b by (simp add: takeWhile_eq_all_conv)
  have dwb: "dropWhile is_digit b = []" using b by simp
  have ex: "exponent_part [] = 0" by (simp add: exponent_part_def)
  have t1: "take 1 s = [c]" by (simp add: ac s_def)
  have t8: "take 8 s \<noteq> ''Infinity''" using c3 by (simp add: ac s_def)
  have "parseFloat s = to_double (of_nat (parse_nat a) + of_nat (parse_nat b) / 10 ^ length b)"
    unfolding parseFloat_def Let_def t1
    using c1 c2 t8 ne by (simp add: tw dw twb dwb ex)
  then show ?thesis by (simp only: s_def)
qed

lemma toFixed_point:
  assumes "0 \<le> x" and "x < 10 ^ 21" and "0 < d"
  shows "parseFloat (toFixed (Fin x) d) = to_double (of_int \<lfloor>x * 10 ^ d + 1 / 2\<rfloor> / 10 ^ d)"
proof -
  define n where "n = nat \<lfloor>x * 10 ^ d + 1 / 2\<rfloor>"
  define z where "z = replicate (Suc d - length (digits n)) (CHR ''0'') @ digits n"
  define a where "a = take (length z - d) z"
  define b where "b = drop (length z - d) z"
  have z0: "is_digit (CHR ''0'')" by (simp add: is_digit_def)
  have zd: "\<forall>c \<in> set z. is_digit c"
    unfolding z_def using digits_are_digits[of n] z0 by (auto split: if_splits)
  have len: "d < length z" by (simp add: z_def)
  have ab: "a @ b = z" by (simp add: a_def b_def)
  have lb: "length b = d" using len by (simp add: b_def)
  have ane: "a \<noteq> []" using len by (auto simp: a_def)
  have ad: "\<forall>c \<in> set a. is_digit c" using zd by (auto simp: a_def dest: in_set_takeD)
  have bd: "\<forall>c \<in> set b. is_digit c" using zd by (auto simp: b_def dest: in_set_dropD)
  have pz: "parse_nat z = n" by (simp add: z_def parse_nat_zeros parse_nat_digits)
  have "parse_nat z = parse_nat a * 10 ^ d + parse_nat b"
    using parse_nat_append[of a b] by (simp add: ab lb)
  then have nab: "n = parse_nat a * 10 ^ d + parse_nat b" using pz by simp
  have x: "\<bar>x\<bar> = x" using assms(1) by simp
  have small: "\<not> 10 ^ 21 \<le> \<bar>x\<bar>" using assms(2) x by simp
  have nn: "0 \<le> \<lfloor>x * 10 ^ d + 1 / 2\<rfloor>" using assms(1) by simp
  have tf: "toFixed (Fin x) d = a @ ''.'' @ b"
    unfolding toFixed.simps Let_def if_not_P[OF small]
    unfolding x n_def[symmetric] z_def[symmetric] a_def b_def
    using assms by simp
  have "parseFloat (toFixed (Fin x) d)
      = to_double (of_nat (parse_nat a) + of_nat (parse_nat b) / 10 ^ d)"
    unfolding tf using parseFloat_point[OF ad bd ane] by (simp add: lb)
  also have "of_nat (parse_nat a) + of_nat (parse_nat b) / 10 ^ d = (of_nat n :: rat) / 10 ^ d"
    by (simp add: nab add_divide_distrib)
  also have "(of_nat n :: rat) = of_int \<lfloor>x * 10 ^ d + 1 / 2\<rfloor>"
    using nn by (simp add: n_def)
  finally show ?thesis .
qed

text \<open>
  On a value from 0 to below \<open>10^21\<close>, \<open>toFixed(0)\<close> writes the digits of the nearest
  integer, and \<open>parseFloat\<close> reads back what \<open>toFixed(2)\<close> wrote: the double nearest
  to the value rounded to two decimals.
\<close>

lemma toFixed_0:
  assumes "0 \<le> x" and "x < 10 ^ 21"
  shows "toFixed (Fin x) 0 = digits (nat \<lfloor>x + 1 / 2\<rfloor>)"
proof -
  have "\<not> 10 ^ 21 \<le> \<bar>x\<bar>" using assms by simp
  then show ?thesis using assms(1) by (simp add: toFixed.simps Let_def)
qed

lemma round_to_error: "\<bar>round_to d x - x\<bar> \<le> 1 / (2 * 10 ^ d)"
proof -
  define y where "y = x * 10 ^ d"
  have p: "(0::rat) < 10 ^ d" by simp
  have lo: "of_int \<lfloor>y + 1 / 2\<rfloor> \<le> y + 1 / 2" by (rule of_int_floor_le)
  have hi: "y + 1 / 2 < of_int \<lfloor>y + 1 / 2\<rfloor> + 1"
    using floor_correct[of "y + 1 / 2"] by simp
  have "\<bar>of_int \<lfloor>y + 1 / 2\<rfloor> - y\<bar> \<le> 1 / 2" using lo hi by linarith
  then have "\<bar>of_int \<lfloor>y + 1 / 2\<rfloor> - y\<bar> / 10 ^ d \<le> (1 / 2) / 10 ^ d"
    using p by (rule divide_right_mono[OF _ less_imp_le])
  moreover have "round_to d x - x = (of_int \<lfloor>y + 1 / 2\<rfloor> - y) / 10 ^ d"
    by (simp add: round_to_def y_def diff_divide_distrib)
  ultimately show ?thesis using p by (simp add: abs_divide)
qed

lemma toFixed_two:
  assumes "0 \<le> x" and "x < 10 ^ 21"
  shows "parseFloat (toFixed (Fin x) 2) = to_double (round_to 2 x)"
  using toFixed_point[OF assms, of 2] by (simp add: round_to_def)


text \<open>
  From \<open>10^21\<close> on \<open>toFixed\<close> writes the exponent notation: \<open>1.2 * 10^21\<close>, a double,
  has 22 digits; no one-digit decimal reads back as it, and of the two-digit ones
  \<open>12 * 10^20\<close> does.
\<close>

lemma toFixed_exponent_notation: "toFixed (Fin (12 * 10 ^ 20)) 0 = ''1.2e+21''"
proof -
  define x :: rat where "x = 12 * 10 ^ 20"
  have n: "length (digits (nat \<lfloor>x\<rfloor>)) = 22" by (simp add: x_def digits_eval)
  have c1: "shortest_candidates x 22 1 = []"
    by (simp add: shortest_candidates_def x_def to_double_eval)
  have c2: "shortest_candidates x 22 2 = [12]"
    by (simp add: shortest_candidates_def x_def to_double_eval)
  have "shortest_length x 22 1 = shortest_length x 22 2"
    using c1 by (subst shortest_length.simps) (simp add: numeral_2_eq_2)
  also have "\<dots> = 2"
    using c2 by (subst shortest_length.simps) simp
  finally have k: "shortest_length x 22 1 = 2" .
  have "exponential x = ''1.2e+21''"
    unfolding exponential_def n k Let_def c2 by (simp add: closest_def digits_eval)
  moreover have "10 ^ 21 \<le> x" by (simp add: x_def)
  moreover have "\<bar>x\<bar> = x" by (simp add: x_def)
  ultimately have "toFixed (Fin x) 0 = ''1.2e+21''"
    by (simp add: toFixed.simps unsigned_def)
  then show ?thesis by (simp only: x_def)
qed

section \<open>Properties of the resources calculation\<close>

text \<open>
  Subtracting the screen's amount 0 leaves a product as it is: the product is a
  double already (or an infinity, or NaN).
\<close>

lemma js_sub_zero: "js_sub (js_mul a b) (Fin 0) = js_mul a b"
proof (cases a)
  case (Fin x)
  show ?thesis
  proof (cases b)
    case (Fin y)
    show ?thesis
    proof (cases "to_double (x * y)")
      case (Fin r)
      then show ?thesis
        using to_double_idem[OF Fin] \<open>a = Fin x\<close> \<open>b = Fin y\<close> by simp
    qed (simp_all add: \<open>a = Fin x\<close> \<open>b = Fin y\<close>)
  qed (simp_all add: \<open>a = Fin x\<close> Let_def)
qed (cases b; simp add: Let_def)+

lemma amount_0:
  assumes "to_double (of_int q) = Fin Q"
  shows "amount q 0 f = Fin 0"
  using assms by (simp add: amount_def)

lemma calculateResources_amounts:
  assumes "0 < quantity st" and "FM (cleaningFrequency st) = Some f"
  shows "calculateResources E FM st =
     Some (if curtainType st = ''textile''
       then Textile
         (toFixed (amount (quantity st) (textile_kWhPerCleaning E) f) 0)
         (toFixed (amount (quantity st) (textile_waterPerCleaning E) f) 0)
         (toFixed (amount (quantity st) (silentia_kWhPerCleaning E) f) 0)
         (toFixed (amount (quantity st) (silentia_waterPerCleaning E) f) 0)
         (NumberV (parseFloat (toFixed
            (amount (quantity st) (silentia_disinfectantPerCleaning E) f) 2)))
         (NumberV (parseFloat (toFixed
            (amount (quantity st) (silentia_wipesPerCleaning E) f) 2)))
         (toFixed (js_sub (amount (quantity st) (textile_kWhPerCleaning E) f)
                          (amount (quantity st) (silentia_kWhPerCleaning E) f)) 0)
         (toFixed (js_sub (amount (quantity st) (textile_waterPerCleaning E) f)
                          (amount (quantity st) (silentia_waterPerCleaning E) f)) 0)
       else Disposable
         (toFixed (amount (quantity st) (disposable_plasticPerUnit E) f) 0)
         (NumberV (parseFloat (toFixed
            (amount (quantity st) (silentia_disinfectantPerCleaning E) f) 2)))
         (NumberV (parseFloat (toFixed
            (amount (quantity st) (silentia_wipesPerCleaning E) f) 2)))
         (toFixed (amount (quantity st) (disposable_plasticPerUnit E) f) 0))"
  using assms
  by (simp add: calculateResources_def Let_def cleanings_def qty_le_0_iff amount_def)

lemma calculateResources_part000_amounts:
  assumes "0 < quantity st" and "FM (cleaningFrequency st) = Some f"
  shows "calculateResources_part000 E FM st =
     Some (if curtainType st = ''textile''
       then Textile
         (toFixed (amount (quantity st) (textile_kWhPerCleaning E) f) 0)
         (toFixed (amount (quantity st) (textile_waterPerCleaning E) f) 0)
         (toFixed (amount (quantity st) (silentia_kWhPerCleaning E) f) 0)
         (toFixed (amount (quantity st) (silentia_waterPerCleaning E) f) 0)
         (StringV (toFixed (amount (quantity st) (silentia_disinfectantPerCleaning E) f) 0))
         (StringV (toFixed (amount (quantity st) (silentia_wipesPerCleaning E) f) 0))
         (toFixed (js_sub (amount (quantity st) (textile_kWhPerCleaning E) f)
                          (amount (quantity st) (silentia_kWhPerCleaning E) f)) 0)
         (toFixed (js_sub (amount (quantity st) (textile_waterPerCleaning E) f)
                          (amount (quantity st) (silentia_waterPerCleaning E) f)) 0)
       else Disposable
         (toFixed (amount (quantity st) (disposable_plasticPerUnit E) f) 0)
         (StringV (toFixed (amount (quantity st) (silentia_disinfectantPerCleaning E) f) 0))
         (StringV (toFixed (amount (quantity st) (silentia_wipesPerCleaning E) f) 0))
         (toFixed (amount (quantity st) (disposable_plasticPerUnit E) f) 0))"
  using assms
  by (simp add: calculateResources_part000_def Let_def cleanings_def qty_le_0_iff amount_def)

text \<open>An amount with a whole rate is exact while the products stay within \<open>2^53\<close>.\<close>

lemma amount_whole:
  assumes "0 \<le> q" and "whole c" and "whole f" and "0 \<le> c" and "0 \<le> f"
    and "of_int q \<le> (2 ^ 53 :: rat)" and "of_int q * c \<le> 2 ^ 53"
    and "of_int q * c * f \<le> 2 ^ 53"
  shows "amount q c f = Fin (of_int q * c * f)"
proof -
  have q0: "(0::rat) \<le> of_int q" using assms(1) by simp
  have qty: "to_double (of_int q) = Fin (of_int q)"
    using to_double_whole[of "of_int q"] q0 assms(6) by simp
  have p1: "0 \<le> of_int q * c" using q0 assms(4) by simp
  have p2: "0 \<le> of_int q * c * f" using p1 assms(5) by simp
  have m1: "js_mul (Fin (of_int q)) (Fin c) = Fin (of_int q * c)"
    using whole_of_int assms(2) p1 assms(7) by (rule js_mul_whole)
  have m2: "js_mul (Fin (of_int q * c)) (Fin f) = Fin (of_int q * c * f)"
    using whole_mult[OF whole_of_int assms(2)] assms(3) p2 assms(8) by (rule js_mul_whole)
  show ?thesis by (simp only: amount_def qty m1 m2)
qed

lemma amount_COSTS_range:
  assumes "0 < q" and "q \<le> MAX_EXACT_QUANTITY" and "f \<in> {1, 4, 12, 52, 365}"
    and "c \<in> {1, 2, 30, 108}"
  shows "amount q c f = Fin (of_int q * c * f)"
proof -
  have lo: "(0::rat) \<le> of_int q" using assms(1) by simp
  have hi: "(of_int q :: rat) \<le> 35253226045"
    using assms(2) by (simp add: MAX_EXACT_QUANTITY_def)
  have q0: "0 \<le> q" using assms(1) by simp
  have wc: "whole c" and wf: "whole f" using assms(3,4) by auto
  have c0: "0 \<le> c" and f0: "0 \<le> f" using assms(3,4) by auto
  have b1: "of_int q \<le> (2 ^ 53 :: rat)" using hi by simp
  have b2: "of_int q * c \<le> 2 ^ 53" using assms(4) lo hi by auto
  have b3: "of_int q * c * f \<le> 2 ^ 53" using assms(3,4) lo hi by auto
  from q0 wc wf c0 f0 b1 b2 b3 show ?thesis by (rule amount_whole)
qed

text \<open>The two literals, and a bound on the amounts of the consumables.\<close>

lemma literal_002:
  "literal (2 / 100) = 5764607523034235 / 288230376151711744"
  "literal (1 / 50) = 5764607523034235 / 288230376151711744"
  by (simp_all add: literal_def to_double_eval)

lemma literal_0015:
  "literal (15 / 1000) = 1080863910568919 / 72057594037927936"
  "literal (3 / 200) = 1080863910568919 / 72057594037927936"
  by (simp_all add: literal_def to_double_eval)

lemma amount_bounded:
  assumes "0 < q" and "q \<le> MAX_EXACT_QUANTITY" and "0 \<le> c" and "c \<le> 1 / 32"
    and "0 \<le> f" and "f \<le> 512"
  shows "\<exists>a. amount q c f = Fin a \<and> 0 \<le> a \<and> a < 10 ^ 21"
proof -
  have lo: "(0::rat) \<le> of_int q" using assms(1) by simp
  have hi: "(of_int q :: rat) \<le> 35253226045"
    using assms(2) by (simp add: MAX_EXACT_QUANTITY_def)
  have qty: "to_double (of_int q) = Fin (of_int q)"
    using to_double_whole[of "of_int q"] lo hi by simp
  have "of_int q * c \<le> 35253226045 * (1 / 32)"
    using lo hi assms(3,4) by (intro mult_mono) simp_all
  then have b1: "of_int q * c \<le> pow2 31" by (simp add: pow2_def)
  have p1: "0 \<le> of_int q * c" using lo assms(3) by simp
  from to_double_le_pow2[OF p1 b1] obtain a1 where
    a1: "to_double (of_int q * c) = Fin a1" "0 \<le> a1" "a1 \<le> pow2 31" by auto
  have "a1 * f \<le> pow2 31 * 512" using a1(2,3) assms(5,6) by (intro mult_mono) simp_all
  then have b2: "a1 * f \<le> pow2 40" by (simp add: pow2_def)
  have p2: "0 \<le> a1 * f" using a1(2) assms(5) by simp
  from to_double_le_pow2[OF p2 b2] obtain a where
    a: "to_double (a1 * f) = Fin a" "0 \<le> a" "a \<le> pow2 40" by auto
  have "a < 10 ^ 21" using a(3) by (simp add: pow2_def)
  then show ?thesis using a(1,2) a1(1) by (simp add: amount_def qty)
qed

lemma floor_whole_half:
  assumes "whole x"
  shows "\<lfloor>x + 1 / 2\<rfloor> = \<lfloor>x\<rfloor>"
proof -
  obtain n where "x = of_int n" using assms by (rule wholeE)
  then show ?thesis by (simp add: floor_unique)
qed


lemma amount_sub_zero: "js_sub (amount q c f) (Fin 0) = amount q c f"
  by (simp only: amount_def js_sub_zero)

lemma toFixed_zero: "toFixed (Fin 0) 0 = ''0''"
  by (simp add: toFixed.simps digits_0)

text \<open>
  C7, for a finite quantity. For every quantity above 0 whose double \<open>state.quantity\<close>
  is finite and every frequency of the table with multiplier \<open>f\<close>,
  \<open>calculateResources\<close> (in both variants) writes each annual amount computed as
  quantity * rate * f in doubles, with the rates 30 kWh, 108 l, 2 kg, 0.02 l and
  0.015 kg (1 wipe in the second variant), and each saved amount as the curtain's
  amount minus the screen's. The screen's energy and water amounts are 0, so for
  textile the saved energy and water are the curtain's energy and water, and for
  disposable the saved plastic is the whole plastic waste. Up to \<open>MAX_EXACT_QUANTITY\<close>
  the amounts with the whole rates 30, 108, 2 and 1 are the exact products.
\<close>

theorem resource_amounts:
  assumes "0 < quantity st" and "FM (cleaningFrequency st) = Some f"
    and "to_double (of_int (quantity st)) = Fin Q"
  shows "(curtainType st = ''textile'' \<longrightarrow>
       calculateResources ENVIRONMENTAL FM st = Some (Textile
         (toFixed (amount (quantity st) 30 f) 0)
         (toFixed (amount (quantity st) 108 f) 0)
         ''0'' ''0''
         (NumberV (parseFloat (toFixed (amount (quantity st) (literal (2 / 100)) f) 2)))
         (NumberV (parseFloat (toFixed (amount (quantity st) (literal (15 / 1000)) f) 2)))
         (toFixed (amount (quantity st) 30 f) 0)
         (toFixed (amount (quantity st) 108 f) 0))
     \<and> calculateResources_part000 ENVIRONMENTAL_part000 FM st = Some (Textile
         (toFixed (amount (quantity st) 30 f) 0)
         (toFixed (amount (quantity st) 108 f) 0)
         ''0'' ''0''
         (StringV (toFixed (amount (quantity st) (literal (2 / 100)) f) 0))
         (StringV (toFixed (amount (quantity st) 1 f) 0))
         (toFixed (amount (quantity st) 30 f) 0)
         (toFixed (amount (quantity st) 108 f) 0))
     \<and> savedKWh (the (calculateResources ENVIRONMENTAL FM st))
         = curtainKWh (the (calculateResources ENVIRONMENTAL FM st))
     \<and> savedWater (the (calculateResources ENVIRONMENTAL FM st))
         = curtainWater (the (calculateResources ENVIRONMENTAL FM st))
     \<and> savedKWh (the (calculateResources_part000 ENVIRONMENTAL_part000 FM st))
         = curtainKWh (the (calculateResources_part000 ENVIRONMENTAL_part000 FM st))
     \<and> savedWater (the (calculateResources_part000 ENVIRONMENTAL_part000 FM st))
         = curtainWater (the (calculateResources_part000 ENVIRONMENTAL_part000 FM st)))
   \<and> (curtainType st \<noteq> ''textile'' \<longrightarrow>
       calculateResources ENVIRONMENTAL FM st = Some (Disposable
         (toFixed (amount (quantity st) 2 f) 0)
         (NumberV (parseFloat (toFixed (amount (quantity st) (literal (2 / 100)) f) 2)))
         (NumberV (parseFloat (toFixed (amount (quantity st) (literal (15 / 1000)) f) 2)))
         (toFixed (amount (quantity st) 2 f) 0))
     \<and> calculateResources_part000 ENVIRONMENTAL_part000 FM st = Some (Disposable
         (toFixed (amount (quantity st) 2 f) 0)
         (StringV (toFixed (amount (quantity st) (literal (2 / 100)) f) 0))
         (StringV (toFixed (amount (quantity st) 1 f) 0))
         (toFixed (amount (quantity st) 2 f) 0))
     \<and> savedPlastic (the (calculateResources ENVIRONMENTAL FM st))
         = plasticWaste (the (calculateResources ENVIRONMENTAL FM st))
     \<and> savedPlastic (the (calculateResources_part000 ENVIRONMENTAL_part000 FM st))
         = plasticWaste (the (calculateResources_part000 ENVIRONMENTAL_part000 FM st)))
   \<and> (quantity st \<le> MAX_EXACT_QUANTITY \<and> f \<in> {1, 4, 12, 52, 365} \<longrightarrow>
       amount (quantity st) 30 f = Fin (of_int (quantity st) * 30 * f)
     \<and> amount (quantity st) 108 f = Fin (of_int (quantity st) * 108 * f)
     \<and> amount (quantity st) 2 f = Fin (of_int (quantity st) * 2 * f)
     \<and> amount (quantity st) 1 f = Fin (of_int (quantity st) * 1 * f))"
proof -
  have ex: "amount (quantity st) c f = Fin (of_int (quantity st) * c * f)"
    if "quantity st \<le> MAX_EXACT_QUANTITY \<and> f \<in> {1, 4, 12, 52, 365}" and "c \<in> {1, 2, 30, 108}"
    for c
    using amount_COSTS_range[OF assms(1), of f c] that by blast
  have exact: "quantity st \<le> MAX_EXACT_QUANTITY \<and> f \<in> {1, 4, 12, 52, 365} \<longrightarrow>
       amount (quantity st) 30 f = Fin (of_int (quantity st) * 30 * f)
     \<and> amount (quantity st) 108 f = Fin (of_int (quantity st) * 108 * f)
     \<and> amount (quantity st) 2 f = Fin (of_int (quantity st) * 2 * f)
     \<and> amount (quantity st) 1 f = Fin (of_int (quantity st) * 1 * f)"
    using ex[of 30] ex[of 108] ex[of 2] ex[of 1] by simp
  show ?thesis
    unfolding calculateResources_amounts[of st FM f ENVIRONMENTAL, OF assms(1,2)]
      calculateResources_part000_amounts[of st FM f ENVIRONMENTAL_part000, OF assms(1,2)]
    using exact
    by (simp add: ENVIRONMENTAL_def ENVIRONMENTAL_part000_def amount_0[OF assms(3)]
        amount_sub_zero toFixed_zero)
qed

lemma amount_100_disinfectant: "amount 100 (literal (2 / 100)) 4 = Fin 8"
  by (simp add: amount_def literal_002 to_double_eval)

lemma amount_100_wipes: "amount 100 (literal (15 / 1000)) 4 = Fin 6"
  by (simp add: amount_def literal_0015 to_double_eval)

lemma to_double_small_whole: "to_double 8 = Fin 8" "to_double 6 = Fin 6" "to_double 100 = Fin 100"
  by (simp_all add: to_double_eval)

theorem resource_amounts_witness:
  "to_double (of_int (quantity
      \<lparr>curtainType = ''textile'', cleaningFrequency = ''quarterly'', quantity = 100\<rparr>)) = Fin 100
   \<and> calculateResources ENVIRONMENTAL FREQUENCY_MULTIPLIER
      \<lparr>curtainType = ''textile'', cleaningFrequency = ''quarterly'', quantity = 100\<rparr>
    = Some (Textile ''12000'' ''43200'' ''0'' ''0'' (NumberV (Fin 8)) (NumberV (Fin 6))
        ''12000'' ''43200'')
   \<and> amount 100 30 4 = Fin 12000
   \<and> savedPlastic (the (calculateResources ENVIRONMENTAL FREQUENCY_MULTIPLIER
      \<lparr>curtainType = ''disposable'', cleaningFrequency = ''quarterly'', quantity = 100\<rparr>))
      = ''800''"
  using resource_amounts[of
      "\<lparr>curtainType = ''textile'', cleaningFrequency = ''quarterly'', quantity = 100\<rparr>"
      FREQUENCY_MULTIPLIER 4 100]
    resource_amounts[of
      "\<lparr>curtainType = ''disposable'', cleaningFrequency = ''quarterly'', quantity = 100\<rparr>"
      FREQUENCY_MULTIPLIER 4 100]
    amount_100_disinfectant amount_100_wipes to_double_small_whole
  by (simp add: FREQUENCY_MULTIPLIER_def MAX_EXACT_QUANTITY_def toFixed_0 toFixed_point
      digits_eval)

text \<open>
  From \<open>2^1024\<close> on \<open>state.quantity\<close> is infinite. The curtain's amounts are then
  infinite, the screen's amounts are infinity times 0, which is NaN, and so are the
  saved amounts: saved energy and water differ from the curtain's.
\<close>

theorem saved_differs_at_infinity:
  "calculateResources ENVIRONMENTAL FREQUENCY_MULTIPLIER
      \<lparr>curtainType = ''textile'', cleaningFrequency = ''quarterly'', quantity = 2 ^ 1024\<rparr>
    = Some (Textile ''Infinity'' ''Infinity'' ''NaN'' ''NaN'' (NumberV PosInf) (NumberV PosInf)
        ''NaN'' ''NaN'')"
proof -
  have q: "to_double (2 ^ 1024) = PosInf" by (rule to_double_huge) simp
  have p: "parseFloat ''Infinity'' = PosInf" by (simp add: parseFloat_def)
  show ?thesis
    using q p
    by (simp add: calculateResources_def Let_def ENVIRONMENTAL_def FREQUENCY_MULTIPLIER_def
        cleanings_def js_le_def literal_002 literal_0015 toFixed.simps)
qed

text \<open>
  C8, where the amounts are below \<open>10^21\<close>. For every quantity from 1 to
  \<open>MAX_EXACT_QUANTITY\<close> and every frequency of the table, \<open>calculateResources\<close> of
  \<open>calculator.js\<close> gives energy, water and plastic in whole units (the digits of the
  exact product) and each of the two consumables as the double nearest to its amount
  rounded to two decimals, the amount being the product as computed in doubles; the
  rounded value is at most 1/200 from that amount. The second variant gives the two
  consumables in whole units as well.
\<close>

theorem output_precision:
  assumes "0 < quantity st" and "quantity st \<le> MAX_EXACT_QUANTITY"
    and "FM = FREQUENCY_MULTIPLIER \<or> FM = FREQUENCY_MULTIPLIER_part000"
    and "FM (cleaningFrequency st) = Some f"
  shows "\<exists>a b. amount (quantity st) (literal (2 / 100)) f = Fin a
     \<and> amount (quantity st) (literal (15 / 1000)) f = Fin b \<and> 0 \<le> a \<and> 0 \<le> b
     \<and> (curtainType st = ''textile'' \<longrightarrow>
         calculateResources ENVIRONMENTAL FM st = Some (Textile
           (digits (nat \<lfloor>of_int (quantity st) * 30 * f\<rfloor>))
           (digits (nat \<lfloor>of_int (quantity st) * 108 * f\<rfloor>))
           ''0'' ''0''
           (NumberV (to_double (round_to 2 a)))
           (NumberV (to_double (round_to 2 b)))
           (digits (nat \<lfloor>of_int (quantity st) * 30 * f\<rfloor>))
           (digits (nat \<lfloor>of_int (quantity st) * 108 * f\<rfloor>)))
       \<and> calculateResources_part000 ENVIRONMENTAL_part000 FM st = Some (Textile
           (digits (nat \<lfloor>of_int (quantity st) * 30 * f\<rfloor>))
           (digits (nat \<lfloor>of_int (quantity st) * 108 * f\<rfloor>))
           ''0'' ''0''
           (StringV (digits (nat \<lfloor>a + 1 / 2\<rfloor>)))
           (StringV (digits (nat \<lfloor>of_int (quantity st) * f\<rfloor>)))
           (digits (nat \<lfloor>of_int (quantity st) * 30 * f\<rfloor>))
           (digits (nat \<lfloor>of_int (quantity st) * 108 * f\<rfloor>))))
     \<and> (curtainType st \<noteq> ''textile'' \<longrightarrow>
         calculateResources ENVIRONMENTAL FM st = Some (Disposable
           (digits (nat \<lfloor>of_int (quantity st) * 2 * f\<rfloor>))
           (NumberV (to_double (round_to 2 a)))
           (NumberV (to_double (round_to 2 b)))
           (digits (nat \<lfloor>of_int (quantity st) * 2 * f\<rfloor>)))
       \<and> calculateResources_part000 ENVIRONMENTAL_part000 FM st = Some (Disposable
           (digits (nat \<lfloor>of_int (quantity st) * 2 * f\<rfloor>))
           (StringV (digits (nat \<lfloor>a + 1 / 2\<rfloor>)))
           (StringV (digits (nat \<lfloor>of_int (quantity st) * f\<rfloor>)))
           (digits (nat \<lfloor>of_int (quantity st) * 2 * f\<rfloor>))))
     \<and> \<bar>round_to 2 a - a\<bar> \<le> 1 / 200 \<and> \<bar>round_to 2 b - b\<bar> \<le> 1 / 200"
proof -
  define q where "q = quantity st"
  have f: "f \<in> {1, 4, 12, 52, 365}" using assms(3,4) by (rule recognized_cases)
  have f0: "0 \<le> f" and f5: "f \<le> 512" and wf: "whole f" using f by auto
  have q0: "(0::rat) \<le> of_int q" using assms(1) by (simp add: q_def)
  have hi: "(of_int q :: rat) \<le> 35253226045"
    using assms(2) by (simp add: MAX_EXACT_QUANTITY_def q_def)
  have qty: "to_double (of_int q) = Fin (of_int q)"
    using to_double_whole[of "of_int q"] q0 hi by simp
  obtain a where a: "amount q (literal (2 / 100)) f = Fin a" "0 \<le> a" "a < 10 ^ 21"
    using amount_bounded[OF assms(1,2) _ _ f0 f5, of "literal (2 / 100)"]
    by (auto simp: literal_002 q_def)
  obtain b where b: "amount q (literal (15 / 1000)) f = Fin b" "0 \<le> b" "b < 10 ^ 21"
    using amount_bounded[OF assms(1,2) _ _ f0 f5, of "literal (15 / 1000)"]
    by (auto simp: literal_0015 q_def)
  have w: "toFixed (amount q c f) 0 = digits (nat \<lfloor>of_int q * c * f\<rfloor>)"
    if "c \<in> {1, 2, 30, 108}" for c
  proof -
    have e: "amount q c f = Fin (of_int q * c * f)"
      using amount_COSTS_range[OF assms(1,2) f that] by (simp add: q_def)
    have wc: "whole c" and c0: "0 \<le> c" and c1: "c \<le> 108" using that by auto
    have wh: "whole (of_int q * c * f)"
      by (intro whole_mult whole_of_int wc wf)
    have lo: "0 \<le> of_int q * c * f" using q0 c0 f0 by simp
    have "of_int q * c * f \<le> 35253226045 * 108 * 512"
      using q0 hi c0 c1 f0 f5 by (intro mult_mono) simp_all
    then have up: "of_int q * c * f < 10 ^ 21" by simp
    show ?thesis
      unfolding e toFixed_0[OF lo up] floor_whole_half[OF wh] ..
  qed
  have r: "\<bar>round_to 2 a - a\<bar> \<le> 1 / 200" "\<bar>round_to 2 b - b\<bar> \<le> 1 / 200"
    using round_to_error[of 2 a] round_to_error[of 2 b] by simp_all
  have res: "calculateResources ENVIRONMENTAL FM st = Some
       (if curtainType st = ''textile''
        then Textile (digits (nat \<lfloor>of_int q * 30 * f\<rfloor>)) (digits (nat \<lfloor>of_int q * 108 * f\<rfloor>))
           ''0'' ''0'' (NumberV (to_double (round_to 2 a))) (NumberV (to_double (round_to 2 b)))
           (digits (nat \<lfloor>of_int q * 30 * f\<rfloor>)) (digits (nat \<lfloor>of_int q * 108 * f\<rfloor>))
        else Disposable (digits (nat \<lfloor>of_int q * 2 * f\<rfloor>))
           (NumberV (to_double (round_to 2 a))) (NumberV (to_double (round_to 2 b)))
           (digits (nat \<lfloor>of_int q * 2 * f\<rfloor>)))"
    unfolding calculateResources_amounts[of st FM f ENVIRONMENTAL, OF assms(1,4)]
    using w[of 30] w[of 108] w[of 2] a(1) b(1)
    by (simp add: ENVIRONMENTAL_def q_def[symmetric] amount_0[OF qty]
        amount_sub_zero toFixed_zero toFixed_two[OF a(2,3)] toFixed_two[OF b(2,3)])
  have res2: "calculateResources_part000 ENVIRONMENTAL_part000 FM st = Some
       (if curtainType st = ''textile''
        then Textile (digits (nat \<lfloor>of_int q * 30 * f\<rfloor>)) (digits (nat \<lfloor>of_int q * 108 * f\<rfloor>))
           ''0'' ''0'' (StringV (digits (nat \<lfloor>a + 1 / 2\<rfloor>)))
           (StringV (digits (nat \<lfloor>of_int q * f\<rfloor>)))
           (digits (nat \<lfloor>of_int q * 30 * f\<rfloor>)) (digits (nat \<lfloor>of_int q * 108 * f\<rfloor>))
        else Disposable (digits (nat \<lfloor>of_int q * 2 * f\<rfloor>))
           (StringV (digits (nat \<lfloor>a + 1 / 2\<rfloor>))) (StringV (digits (nat \<lfloor>of_int q * f\<rfloor>)))
           (digits (nat \<lfloor>of_int q * 2 * f\<rfloor>)))"
    unfolding calculateResources_part000_amounts[of st FM f ENVIRONMENTAL_part000, OF assms(1,4)]
    using w[of 30] w[of 108] w[of 2] w[of 1] a(1)
    by (simp add: ENVIRONMENTAL_part000_def q_def[symmetric] amount_0[OF qty]
        amount_sub_zero toFixed_zero toFixed_0[OF a(2,3)])
  show ?thesis
    using a(1,2) b(1,2) r res res2 unfolding q_def by (intro exI[of _ a] exI[of _ b]) simp
qed

lemma amount_1_disinfectant:
  "amount 1 (literal (2 / 100)) 1 = Fin (5764607523034235 / 288230376151711744)"
  by (simp add: amount_def literal_002 to_double_eval)

lemma amount_1_wipes:
  "amount 1 (literal (15 / 1000)) 1 = Fin (1080863910568919 / 72057594037927936)"
  by (simp add: amount_def literal_0015 to_double_eval)

lemma two_decimals_1:
  "to_double (round_to 2 (5764607523034235 / 288230376151711744))
     = Fin (5764607523034235 / 288230376151711744)"
  "to_double (round_to 2 (1080863910568919 / 72057594037927936))
     = Fin (5764607523034235 / 576460752303423488)"
  "to_double (1 / 100) = Fin (5764607523034235 / 576460752303423488)"
  "to_double (2 / 100) = Fin (5764607523034235 / 288230376151711744)"
  by (simp_all add: round_to_def to_double_eval)

text \<open>
  One textile curtain cleaned once a year: 30 kWh, 108 l, and as consumables the
  doubles 0.02 (l of disinfectant) and 0.01 (kg of wipes). The amount of wipes is the
  double of the literal \<open>0.015\<close>, which lies below 15/1000, so two decimals give 0.01.
\<close>

theorem output_precision_witness:
  "0 < quantity \<lparr>curtainType = ''textile'', cleaningFrequency = ''yearly'', quantity = 1\<rparr>
   \<and> quantity \<lparr>curtainType = ''textile'', cleaningFrequency = ''yearly'', quantity = 1\<rparr>
       \<le> MAX_EXACT_QUANTITY
   \<and> FREQUENCY_MULTIPLIER ''yearly'' = Some 1
   \<and> calculateResources ENVIRONMENTAL FREQUENCY_MULTIPLIER
      \<lparr>curtainType = ''textile'', cleaningFrequency = ''yearly'', quantity = 1\<rparr>
    = Some (Textile ''30'' ''108'' ''0'' ''0''
        (NumberV (Fin (5764607523034235 / 288230376151711744)))
        (NumberV (Fin (5764607523034235 / 576460752303423488))) ''30'' ''108'')
   \<and> to_double (2 / 100) = Fin (5764607523034235 / 288230376151711744)
   \<and> to_double (1 / 100) = Fin (5764607523034235 / 576460752303423488)"
proof -
  define st where
    "st = \<lparr>curtainType = ''textile'', cleaningFrequency = ''yearly'', quantity = 1\<rparr>"
  have h: "0 < quantity st" "quantity st \<le> MAX_EXACT_QUANTITY"
    "FREQUENCY_MULTIPLIER (cleaningFrequency st) = Some 1" "curtainType st = ''textile''"
    by (simp_all add: st_def FREQUENCY_MULTIPLIER_def MAX_EXACT_QUANTITY_def)
  from output_precision[of st FREQUENCY_MULTIPLIER 1, OF h(1,2) disjI1[OF refl] h(3)] h(4)
  obtain a b where
    a: "amount (quantity st) (literal (2 / 100)) 1 = Fin a"
    and b: "amount (quantity st) (literal (15 / 1000)) 1 = Fin b"
    and r: "calculateResources ENVIRONMENTAL FREQUENCY_MULTIPLIER st = Some (Textile
           (digits (nat \<lfloor>(of_int (quantity st) :: rat) * 30 * 1\<rfloor>))
           (digits (nat \<lfloor>(of_int (quantity st) :: rat) * 108 * 1\<rfloor>))
           ''0'' ''0''
           (NumberV (to_double (round_to 2 a)))
           (NumberV (to_double (round_to 2 b)))
           (digits (nat \<lfloor>(of_int (quantity st) :: rat) * 30 * 1\<rfloor>))
           (digits (nat \<lfloor>(of_int (quantity st) :: rat) * 108 * 1\<rfloor>)))"
    by auto
  have a': "a = 5764607523034235 / 288230376151711744"
    using a amount_1_disinfectant by (simp add: st_def)
  have b': "b = 1080863910568919 / 72057594037927936"
    using b amount_1_wipes by (simp add: st_def)
  have "calculateResources ENVIRONMENTAL FREQUENCY_MULTIPLIER st
    = Some (Textile ''30'' ''108'' ''0'' ''0''
        (NumberV (Fin (5764607523034235 / 288230376151711744)))
        (NumberV (Fin (5764607523034235 / 576460752303423488))) ''30'' ''108'')"
    unfolding r a' b' two_decimals_1 by (simp add: st_def digits_eval)
  then show ?thesis
    using h(1-3) two_decimals_1(3,4) by (simp add: st_def)
qed

text \<open>
  In the second variant the same state gives the disinfectant as the string 0 and the
  wipes as the string 1: whole units, not two decimals.
\<close>

theorem part000_consumables_whole_units:
  "calculateResources_part000 ENVIRONMENTAL_part000 FREQUENCY_MULTIPLIER_part000
      \<lparr>curtainType = ''textile'', cleaningFrequency = ''yearly'', quantity = 1\<rparr>
    = Some (Textile ''30'' ''108'' ''0'' ''0'' (StringV ''0'') (StringV ''1'') ''30'' ''108'')"
proof -
  have q: "to_double 1 = Fin 1" by (simp add: to_double_eval)
  have a: "to_double 30 = Fin 30" "to_double 108 = Fin 108" by (simp_all add: to_double_eval)
  have d: "to_double (5764607523034235 / 288230376151711744)
      = Fin (5764607523034235 / 288230376151711744)"
    by (simp add: to_double_eval)
  show ?thesis
    using q a d
    by (simp add: calculateResources_part000_def Let_def ENVIRONMENTAL_part000_def
        FREQUENCY_MULTIPLIER_part000_def cleanings_def js_le_def literal_002
        toFixed.simps digits_eval)
qed


end
